theory Spec2Isabelle
  imports Main "HOL-Library.Multiset"
begin

section \<open>Data model\<close>

text \<open>
  The enumerations of \<^verbatim>\<open>app/models/blog.py\<close> and \<^verbatim>\<open>app/models/user.py\<close>.
\<close>

datatype BlogStatus = PENDING | APPROVED | REJECTED

datatype UserRole = USER | ADMIN | L1_APPROVER

text \<open>
  A \<^verbatim>\<open>datetime\<close> is a point on an integer time line; \<^verbatim>\<open>datetime.utcnow()\<close> is an
  argument \<open>now\<close> of every operation that reads the clock.
\<close>

type_synonym datetime = int

text \<open>
  The rows of the tables \<^verbatim>\<open>users\<close>, \<^verbatim>\<open>blogs\<close> and \<^verbatim>\<open>comments\<close>. The column \<^verbatim>\<open>id\<close> is
  \<open>u_id\<close>, \<open>b_id\<close> and \<open>c_id\<close>; the columns of a comment carry the prefix \<open>c_\<close>.
\<close>

record User =
  u_id :: int
  username :: string
  role :: UserRole
  is_active :: bool

record Blog =
  b_id :: int
  title :: string
  content :: string
  images :: "string list option"
  status :: BlogStatus
  author_id :: int
  created_at :: datetime
  updated_at :: datetime
  deleted_at :: "datetime option"

record Comment =
  c_id :: int
  c_content :: string
  c_blog_id :: int
  c_user_id :: int
  c_created_at :: datetime

text \<open>
  The request bodies of \<^verbatim>\<open>app/blogs/schemas.py\<close>. A field of \<open>BlogUpdate\<close> is \<open>None\<close>
  when the request left it unset, \<open>Some None\<close> when the request set it to null and
  \<open>Some (Some v)\<close> when it carries a value: \<^verbatim>\<open>model_dump(exclude_unset=True)\<close> keeps
  the last two.
\<close>

record BlogCreate =
  new_title :: string
  new_content :: string
  new_images :: "string list option"

record BlogUpdate =
  upd_title :: "string option option"
  upd_content :: "string option option"
  upd_images :: "string list option option"

text \<open>
  Every exception the modelled code raises or lets through.
\<close>

datatype error =
    HTTPException nat string
  | MultipleResultsFound
  | IntegrityError
  | AttributeError
  | RequestValidationError
  | WebSocketDisconnect
  | JSONDecodeError
  | RecursionError
  | ValueError

section \<open>Library functions\<close>

text \<open>
  A parsed JSON document. A number with a fraction is not represented: in every test
  the handlers make on a value it behaves as \<open>JInt 0\<close> (when zero) or \<open>JInt 1\<close>.
  A Python \<^verbatim>\<open>dict\<close> read from JSON is the association list of \<open>JObj\<close>.
\<close>

datatype json =
    JNull
  | JBool bool
  | JInt int
  | JStr string
  | JArr "json list"
  | JObj "(string \<times> json) list"

text \<open>
  The functions of the Python library and of \<^verbatim>\<open>jose\<close> that the code calls and the
  model does not define. \<^verbatim>\<open>json.loads\<close> returns the document or the exception it
  raises: \<open>JSONDecodeError\<close> on a syntax error, another one (\<open>RecursionError\<close> on
  brackets nested too deep, \<open>ValueError\<close> on a number of too many digits) where the
  parser gives up. \<^verbatim>\<open>json.dumps\<close> and \<^verbatim>\<open>datetime.isoformat\<close> are total.
  \<^verbatim>\<open>jwt.decode\<close> with the configured key is \<open>None\<close> for \<^verbatim>\<open>JWTError\<close>, \<^verbatim>\<open>int\<close> on a
  string is \<open>None\<close> for \<^verbatim>\<open>ValueError\<close>. \<^verbatim>\<open>len\<close> and \<^verbatim>\<open>str.strip\<close> depend on the code
  points of a text and on the Unicode table of white space, so they are taken from
  the library as well: \<open>str_len\<close> is the number of code points, \<open>str_strip\<close> the text
  without the white space at its two ends.
\<close>

record pylib =
  json_loads :: "string \<Rightarrow> error + json"
  json_dumps :: "json \<Rightarrow> string"
  isoformat :: "datetime \<Rightarrow> string"
  jwt_decode :: "string \<Rightarrow> (string \<times> json) list option"
  int_of_str :: "string \<Rightarrow> int option"
  str_len :: "string \<Rightarrow> nat"
  str_strip :: "string \<Rightarrow> string"

text \<open>Truth value of a Python object, and \<^verbatim>\<open>x or ""\<close>.\<close>

fun truthy :: "json \<Rightarrow> bool" where
  "truthy JNull = False"
| "truthy (JBool b) = b"
| "truthy (JInt n) = (n \<noteq> 0)"
| "truthy (JStr s) = (s \<noteq> [])"
| "truthy (JArr xs) = (xs \<noteq> [])"
| "truthy (JObj kvs) = (kvs \<noteq> [])"

definition dict_get :: "(string \<times> json) list \<Rightarrow> string \<Rightarrow> json" where
  "dict_get kvs k = (case map_of kvs k of None \<Rightarrow> JNull | Some v \<Rightarrow> v)"

definition or_empty :: "json \<Rightarrow> json" where
  "or_empty v = (if truthy v then v else JStr [])"

text \<open>\<^verbatim>\<open>int(x)\<close> on a token claim; \<open>None\<close> for \<^verbatim>\<open>TypeError\<close> and \<^verbatim>\<open>ValueError\<close>.\<close>

fun py_int :: "pylib \<Rightarrow> json \<Rightarrow> int option" where
  "py_int lib (JInt n) = Some n"
| "py_int lib (JBool b) = Some (if b then 1 else 0)"
| "py_int lib (JStr s) = int_of_str lib s"
| "py_int lib v = None"

definition verify_token :: "pylib \<Rightarrow> string \<Rightarrow> string \<Rightarrow> (string \<times> json) list option" where
  "verify_token lib token token_type =
     (case jwt_decode lib token of
        None \<Rightarrow> None
      | Some payload \<Rightarrow>
          if dict_get payload ''type'' \<noteq> JStr token_type then None else Some payload)"

text \<open>
  The constraints of \<^verbatim>\<open>app/blogs/schemas.py\<close> on a request body: a title of 3 to 500
  characters and a content of at least one. A field of \<open>BlogUpdate\<close> that is unset
  or null passes. A body that fails is answered with 422 before the endpoint runs.
\<close>

definition BlogCreate_valid :: "pylib \<Rightarrow> BlogCreate \<Rightarrow> bool" where
  "BlogCreate_valid lib payload =
     (3 \<le> str_len lib (new_title payload) \<and> str_len lib (new_title payload) \<le> 500
      \<and> 1 \<le> str_len lib (new_content payload))"

definition BlogUpdate_valid :: "pylib \<Rightarrow> BlogUpdate \<Rightarrow> bool" where
  "BlogUpdate_valid lib payload =
     ((case upd_title payload of
         Some (Some t) \<Rightarrow> 3 \<le> str_len lib t \<and> str_len lib t \<le> 500
       | _ \<Rightarrow> True)
      \<and> (case upd_content payload of
           Some (Some c) \<Rightarrow> 1 \<le> str_len lib c
         | _ \<Rightarrow> True))"

section \<open>Persistence\<close>

text \<open>
  A table is the list of its rows. \<^verbatim>\<open>scalar_one_or_none()\<close> returns the only row of
  a result, \<open>None\<close> for an empty result, and raises on more than one row. The primary
  key constraint on \<^verbatim>\<open>id\<close> is the predicate \<open>primary_key\<close>.
\<close>

fun scalar_one_or_none :: "'a list \<Rightarrow> error + 'a option" where
  "scalar_one_or_none [] = Inr None"
| "scalar_one_or_none [x] = Inr (Some x)"
| "scalar_one_or_none (x # y # zs) = Inl MultipleResultsFound"

definition primary_key :: "Blog list \<Rightarrow> bool" where
  "primary_key rows = distinct (map b_id rows)"

text \<open>
  The next value of the autoincrement column: one more than the largest id in use
  (rows are never removed, deletion only sets \<open>deleted_at\<close>).
\<close>

definition next_id :: "int list \<Rightarrow> int" where
  "next_id ids = fold max ids 0 + 1"

text \<open>
  \<^verbatim>\<open>db.flush()\<close> of a changed row writes it over the row with the same primary key.
\<close>

definition flush_blog :: "Blog list \<Rightarrow> Blog \<Rightarrow> Blog list" where
  "flush_blog rows b = map (\<lambda>r. if b_id r = b_id b then b else r) rows"

section \<open>Blog service (\<^verbatim>\<open>app/blogs/service.py\<close>)\<close>

definition get_blog_by_id :: "Blog list \<Rightarrow> int \<Rightarrow> error + Blog option" where
  "get_blog_by_id rows bid =
     scalar_one_or_none (filter (\<lambda>b. b_id b = bid \<and> deleted_at b = None) rows)"

definition can_view_blog :: "Blog \<Rightarrow> User option \<Rightarrow> bool" where
  "can_view_blog blog user =
     (if status blog = APPROVED then True
      else case user of
        None \<Rightarrow> False
      | Some u \<Rightarrow>
          if u_id u = author_id blog then True
          else if role u \<in> {ADMIN, L1_APPROVER} then True
          else False)"

definition get_blog_for_view :: "Blog list \<Rightarrow> int \<Rightarrow> User option \<Rightarrow> error + Blog option" where
  "get_blog_for_view rows bid current_user =
     (case get_blog_by_id rows bid of
        Inl e \<Rightarrow> Inl e
      | Inr None \<Rightarrow> Inr None
      | Inr (Some blog) \<Rightarrow>
          if \<not> can_view_blog blog current_user then Inr None else Inr (Some blog))"

definition can_edit_blog :: "Blog \<Rightarrow> User \<Rightarrow> bool" where
  "can_edit_blog blog user =
     (if role user = ADMIN then True
      else if author_id blog = u_id user \<and> status blog \<noteq> APPROVED then True
      else False)"

definition can_delete_blog :: "Blog \<Rightarrow> User \<Rightarrow> bool" where
  "can_delete_blog blog user =
     (if role user = ADMIN then True
      else if author_id blog = u_id user then True
      else False)"

text \<open>
  \<open>update_blog\<close> assigns every field the request set, refreshes \<open>updated_at\<close> and
  flushes. The columns \<^verbatim>\<open>title\<close> and \<^verbatim>\<open>content\<close> are not nullable, so the flush of a
  null in one of them raises and nothing is written.
\<close>

definition update_blog ::
  "Blog list \<Rightarrow> datetime \<Rightarrow> Blog \<Rightarrow> BlogUpdate \<Rightarrow> User \<Rightarrow> (error + Blog option) \<times> Blog list" where
  "update_blog rows now blog data current_user =
     (if \<not> can_edit_blog blog current_user then (Inr None, rows)
      else if upd_title data = Some None \<or> upd_content data = Some None
        then (Inl IntegrityError, rows)
      else
        let blog' = blog\<lparr>
              title := (case upd_title data of Some (Some t) \<Rightarrow> t | _ \<Rightarrow> title blog),
              content := (case upd_content data of Some (Some c) \<Rightarrow> c | _ \<Rightarrow> content blog),
              images := (case upd_images data of Some i \<Rightarrow> i | None \<Rightarrow> images blog),
              updated_at := now\<rparr>
        in (Inr (Some blog'), flush_blog rows blog'))"

text \<open>
  \<open>soft_delete_blog\<close> assigns \<open>deleted_at\<close>; the column \<open>updated_at\<close> is declared with
  \<^verbatim>\<open>onupdate=datetime.utcnow\<close>, so the same flush refreshes it.
\<close>

definition soft_delete_blog ::
  "Blog list \<Rightarrow> datetime \<Rightarrow> Blog \<Rightarrow> User \<Rightarrow> bool \<times> Blog list" where
  "soft_delete_blog rows now blog current_user =
     (if \<not> can_delete_blog blog current_user then (False, rows)
      else (True, flush_blog rows (blog\<lparr>deleted_at := Some now, updated_at := now\<rparr>)))"

definition approve_blog :: "Blog list \<Rightarrow> datetime \<Rightarrow> Blog \<Rightarrow> User \<Rightarrow> Blog \<times> Blog list" where
  "approve_blog rows now blog approver =
     (let blog' = blog\<lparr>status := APPROVED, updated_at := now\<rparr>
      in (blog', flush_blog rows blog'))"

definition reject_blog :: "Blog list \<Rightarrow> datetime \<Rightarrow> Blog \<Rightarrow> User \<Rightarrow> Blog \<times> Blog list" where
  "reject_blog rows now blog approver =
     (let blog' = blog\<lparr>status := REJECTED, updated_at := now\<rparr>
      in (blog', flush_blog rows blog'))"

text \<open>
  \<open>list_approved_blogs\<close>: the query filters, orders by \<open>created_at\<close> descending, skips
  \<open>offset\<close> rows and keeps \<open>limit\<close> rows; the count query counts the filtered rows.
  The order among rows with equal \<open>created_at\<close> is left open by SQL; the model keeps
  the table order there.
\<close>

definition approved_live :: "Blog \<Rightarrow> bool" where
  "approved_live b = (status b = APPROVED \<and> deleted_at b = None)"

definition list_approved_blogs :: "Blog list \<Rightarrow> int \<Rightarrow> int \<Rightarrow> Blog list \<times> int" where
  "list_approved_blogs rows limit offset =
     (let ordered = sort_key (\<lambda>b. - created_at b) (filter approved_live rows);
          items = take (nat limit) (drop (nat offset) ordered);
          n = int (length (filter approved_live rows))
      in (items, n))"

section \<open>Authentication dependencies (\<^verbatim>\<open>app/auth/dependencies.py\<close>, \<^verbatim>\<open>app/auth/rbac.py\<close>)\<close>

text \<open>
  The endpoints receive the user that \<open>get_current_user\<close> resolved from the bearer
  token; the dependencies below run on it before the endpoint body.
\<close>

definition get_current_active_user :: "User \<Rightarrow> error + User" where
  "get_current_active_user current_user =
     (if \<not> is_active current_user then Inl (HTTPException 403 ''Inactive user'')
      else Inr current_user)"

definition require_admin :: "User \<Rightarrow> error + User" where
  "require_admin u =
     (case get_current_active_user u of
        Inl e \<Rightarrow> Inl e
      | Inr current_user \<Rightarrow>
          if role current_user \<noteq> ADMIN
          then Inl (HTTPException 403 ''Access denied. Admin role required.'')
          else Inr current_user)"

definition require_approver :: "User \<Rightarrow> error + User" where
  "require_approver u =
     (case get_current_active_user u of
        Inl e \<Rightarrow> Inl e
      | Inr current_user \<Rightarrow>
          if role current_user \<notin> set [ADMIN, L1_APPROVER]
          then Inl (HTTPException 403 ''Access denied. Admin or L1 Approver role required.'')
          else Inr current_user)"

section \<open>Blog routes (\<^verbatim>\<open>app/blogs/routes.py\<close>)\<close>

definition not_found :: error where
  "not_found = HTTPException 404 ''Blog not found''"

definition get_blog_endpoint :: "Blog list \<Rightarrow> int \<Rightarrow> User option \<Rightarrow> error + Blog" where
  "get_blog_endpoint rows bid current_user =
     (case get_blog_for_view rows bid current_user of
        Inl e \<Rightarrow> Inl e
      | Inr None \<Rightarrow> Inl not_found
      | Inr (Some blog) \<Rightarrow> Inr blog)"

text \<open>
  The routes compare with \<^verbatim>\<open>blog.status.APPROVED\<close> and \<^verbatim>\<open>blog.status.REJECTED\<close>: a member
  of the enumeration reached through the value of the column.
\<close>

definition approve_blog_endpoint ::
  "Blog list \<Rightarrow> datetime \<Rightarrow> int \<Rightarrow> User \<Rightarrow> (error + Blog) \<times> Blog list" where
  "approve_blog_endpoint rows now bid u =
     (case require_approver u of
        Inl e \<Rightarrow> (Inl e, rows)
      | Inr approver \<Rightarrow>
          (case get_blog_by_id rows bid of
             Inl e \<Rightarrow> (Inl e, rows)
           | Inr None \<Rightarrow> (Inl not_found, rows)
           | Inr (Some blog) \<Rightarrow>
               if status blog = APPROVED
               then (Inl (HTTPException 400 ''Blog is already approved''), rows)
               else (case approve_blog rows now blog approver of
                       (approved, rows') \<Rightarrow> (Inr approved, rows'))))"

definition reject_blog_endpoint ::
  "Blog list \<Rightarrow> datetime \<Rightarrow> int \<Rightarrow> User \<Rightarrow> (error + Blog) \<times> Blog list" where
  "reject_blog_endpoint rows now bid u =
     (case require_approver u of
        Inl e \<Rightarrow> (Inl e, rows)
      | Inr approver \<Rightarrow>
          (case get_blog_by_id rows bid of
             Inl e \<Rightarrow> (Inl e, rows)
           | Inr None \<Rightarrow> (Inl not_found, rows)
           | Inr (Some blog) \<Rightarrow>
               if status blog = REJECTED
               then (Inl (HTTPException 400 ''Blog is already rejected''), rows)
               else (case reject_blog rows now blog approver of
                       (rejected, rows') \<Rightarrow> (Inr rejected, rows'))))"

text \<open>
  The framework resolves the dependencies of an endpoint first, then validates the
  request body, then runs the endpoint.
\<close>

definition update_blog_endpoint ::
  "pylib \<Rightarrow> Blog list \<Rightarrow> datetime \<Rightarrow> int \<Rightarrow> BlogUpdate \<Rightarrow> User
   \<Rightarrow> (error + Blog) \<times> Blog list" where
  "update_blog_endpoint lib rows now bid payload u =
     (case get_current_active_user u of
        Inl e \<Rightarrow> (Inl e, rows)
      | Inr current_user \<Rightarrow>
          if \<not> BlogUpdate_valid lib payload then (Inl RequestValidationError, rows)
          else
          (case get_blog_by_id rows bid of
             Inl e \<Rightarrow> (Inl e, rows)
           | Inr None \<Rightarrow> (Inl not_found, rows)
           | Inr (Some blog) \<Rightarrow>
               (case update_blog rows now blog payload current_user of
                  (Inl e, rows') \<Rightarrow> (Inl e, rows')
                | (Inr None, rows') \<Rightarrow>
                    (Inl (HTTPException 403 ''You are not allowed to update this blog''), rows')
                | (Inr (Some updated), rows') \<Rightarrow> (Inr updated, rows'))))"

definition delete_blog_endpoint ::
  "Blog list \<Rightarrow> datetime \<Rightarrow> int \<Rightarrow> User \<Rightarrow> (error + unit) \<times> Blog list" where
  "delete_blog_endpoint rows now bid u =
     (case get_current_active_user u of
        Inl e \<Rightarrow> (Inl e, rows)
      | Inr current_user \<Rightarrow>
          (case get_blog_by_id rows bid of
             Inl e \<Rightarrow> (Inl e, rows)
           | Inr None \<Rightarrow> (Inl not_found, rows)
           | Inr (Some blog) \<Rightarrow>
               (case soft_delete_blog rows now blog current_user of
                  (allowed, rows') \<Rightarrow>
                    if \<not> allowed
                    then (Inl (HTTPException 403 ''You are not allowed to delete this blog''), rows')
                    else (Inr (), rows'))))"

text \<open>
  \<open>list_blogs\<close>: the query parameters are validated (\<^verbatim>\<open>ge=1, le=100\<close> and \<^verbatim>\<open>ge=0\<close>)
  before the body runs.
\<close>

record BlogListResponse =
  resp_items :: "Blog list"
  resp_total :: int
  resp_limit :: int
  resp_offset :: int

definition list_blogs :: "Blog list \<Rightarrow> int \<Rightarrow> int \<Rightarrow> error + BlogListResponse" where
  "list_blogs rows limit offset =
     (if limit < 1 \<or> limit > 100 \<or> offset < 0 then Inl RequestValidationError
      else case list_approved_blogs rows limit offset of
        (items, n) \<Rightarrow>
          Inr \<lparr>resp_items = items, resp_total = n, resp_limit = limit, resp_offset = offset\<rparr>)"

section \<open>Notifications manager (\<^verbatim>\<open>app/notifications/manager.py\<close>)\<close>

text \<open>
  \<open>_clients\<close> maps a client id to its queue; a dictionary keeps insertion order, so
  it is an association list. A queue is the list of its messages, oldest first;
  it is unbounded, so \<^verbatim>\<open>put_nowait\<close> always appends.
\<close>

type_synonym NotificationsManager = "(string \<times> string list) list"

fun dict_set :: "('k \<times> 'v) list \<Rightarrow> 'k \<Rightarrow> 'v \<Rightarrow> ('k \<times> 'v) list" where
  "dict_set [] k v = [(k, v)]"
| "dict_set ((k', v') # rest) k v =
     (if k' = k then (k, v) # rest else (k', v') # dict_set rest k v)"

definition dict_pop :: "('k \<times> 'v) list \<Rightarrow> 'k \<Rightarrow> ('k \<times> 'v) list" where
  "dict_pop d k = filter (\<lambda>kv. fst kv \<noteq> k) d"

definition put_nowait :: "string list \<Rightarrow> string \<Rightarrow> string list" where
  "put_nowait queue message = queue @ [message]"

text \<open>
  The generator \<open>connect\<close>, one definition for each of its stages: \<open>sse_connect\<close> runs
  it to its first \<^verbatim>\<open>yield\<close> (the id \<open>client_id\<close> is the fresh \<^verbatim>\<open>uuid4()\<close>), \<open>sse_next\<close>
  resumes it to the next one (a message when the queue holds one, the heartbeat
  when the wait times out), \<open>sse_finally\<close> is the \<^verbatim>\<open>finally\<close> block.
\<close>

definition sse_connect :: "pylib \<Rightarrow> NotificationsManager \<Rightarrow> string \<Rightarrow> string \<times> NotificationsManager" where
  "sse_connect lib clients client_id =
     (''data: '' @ json_dumps lib (JObj [(''type'', JStr ''connected'')]) @ [CHR 0x0A, CHR 0x0A],
      dict_set clients client_id [])"

definition sse_next :: "NotificationsManager \<Rightarrow> string \<Rightarrow> string \<times> NotificationsManager" where
  "sse_next clients client_id =
     (case map_of clients client_id of
        Some (message # queue) \<Rightarrow>
          (''data: '' @ message @ [CHR 0x0A, CHR 0x0A], dict_set clients client_id queue)
      | _ \<Rightarrow> ('': heartbeat'' @ [CHR 0x0A, CHR 0x0A], clients))"

definition sse_finally :: "NotificationsManager \<Rightarrow> string \<Rightarrow> NotificationsManager" where
  "sse_finally clients client_id = dict_pop clients client_id"

fun fan_out :: "string \<Rightarrow> NotificationsManager \<Rightarrow> NotificationsManager" where
  "fan_out message [] = []"
| "fan_out message ((client_id, queue) # rest) =
     (client_id, put_nowait queue message) # fan_out message rest"

definition pending_payload :: "Blog \<Rightarrow> json" where
  "pending_payload blog =
     JObj [(''type'', JStr ''new_pending_blog''),
           (''blog_id'', JInt (b_id blog)),
           (''title'', JStr (title blog)),
           (''author_id'', JInt (author_id blog))]"

definition notify_new_pending_blog :: "pylib \<Rightarrow> NotificationsManager \<Rightarrow> Blog \<Rightarrow> NotificationsManager" where
  "notify_new_pending_blog lib clients blog =
     (if clients = [] then clients
      else
        let message = json_dumps lib (pending_payload blog)
        in fan_out message clients)"

text \<open>
  \<open>notifications_sse\<close> (\<^verbatim>\<open>app/notifications/routes.py\<close>): the dependency
  \<open>require_admin\<close>, then the streaming response starts the generator.
\<close>

definition notifications_sse ::
  "pylib \<Rightarrow> NotificationsManager \<Rightarrow> string \<Rightarrow> User \<Rightarrow> (error + string) \<times> NotificationsManager" where
  "notifications_sse lib clients client_id u =
     (case require_admin u of
        Inl e \<Rightarrow> (Inl e, clients)
      | Inr _ \<Rightarrow>
          (case sse_connect lib clients client_id of
             (first, clients') \<Rightarrow> (Inr first, clients')))"

section \<open>Submission\<close>

definition create_blog ::
  "pylib \<Rightarrow> Blog list \<Rightarrow> NotificationsManager \<Rightarrow> datetime \<Rightarrow> User \<Rightarrow> BlogCreate
   \<Rightarrow> Blog \<times> Blog list \<times> NotificationsManager" where
  "create_blog lib rows clients now current_user data =
     (let blog = \<lparr>b_id = next_id (map b_id rows),
                  title = new_title data,
                  content = new_content data,
                  images = new_images data,
                  status = PENDING,
                  author_id = u_id current_user,
                  created_at = now,
                  updated_at = now,
                  deleted_at = None\<rparr>
      in (blog, rows @ [blog], notify_new_pending_blog lib clients blog))"

definition create_blog_endpoint ::
  "pylib \<Rightarrow> Blog list \<Rightarrow> NotificationsManager \<Rightarrow> datetime \<Rightarrow> BlogCreate \<Rightarrow> User
   \<Rightarrow> (error + Blog) \<times> Blog list \<times> NotificationsManager" where
  "create_blog_endpoint lib rows clients now payload u =
     (case get_current_active_user u of
        Inl e \<Rightarrow> (Inl e, rows, clients)
      | Inr current_user \<Rightarrow>
          if \<not> BlogCreate_valid lib payload then (Inl RequestValidationError, rows, clients)
          else
          (case create_blog lib rows clients now current_user payload of
             (blog, rows', clients') \<Rightarrow> (Inr blog, rows', clients')))"

section \<open>Chat manager (\<^verbatim>\<open>app/blogs/chat_manager.py\<close>)\<close>

text \<open>
  A \<^verbatim>\<open>WebSocket\<close> object is known by a number. The state of the transport is the
  record \<open>net\<close>: \<open>broken\<close> holds the sockets on which \<^verbatim>\<open>send_text\<close> raises,
  \<open>delivered\<close> the text frames each socket has been sent, \<open>calls\<close> every call of
  \<^verbatim>\<open>send_text\<close> in order, \<open>accepted\<close> and \<open>closes\<close> the calls of \<^verbatim>\<open>accept\<close> and \<^verbatim>\<open>close\<close>.
\<close>

type_synonym WebSocket = nat

record net =
  broken :: "WebSocket set"
  delivered :: "WebSocket \<Rightarrow> string list"
  calls :: "(WebSocket \<times> string) list"
  accepted :: "WebSocket list"
  closes :: "(WebSocket \<times> nat) list"

definition send_text :: "net \<Rightarrow> WebSocket \<Rightarrow> string \<Rightarrow> (error + unit) \<times> net" where
  "send_text n ws message =
     (if ws \<in> broken n
      then (Inl WebSocketDisconnect, n\<lparr>calls := calls n @ [(ws, message)]\<rparr>)
      else (Inr (), n\<lparr>delivered := (delivered n)(ws := delivered n ws @ [message]),
                       calls := calls n @ [(ws, message)]\<rparr>))"

definition ws_accept :: "net \<Rightarrow> WebSocket \<Rightarrow> net" where
  "ws_accept n ws = n\<lparr>accepted := accepted n @ [ws]\<rparr>"

definition ws_close :: "net \<Rightarrow> WebSocket \<Rightarrow> nat \<Rightarrow> net" where
  "ws_close n ws code = n\<lparr>closes := closes n @ [(ws, code)]\<rparr>"

definition WS_1008_POLICY_VIOLATION :: nat where
  "WS_1008_POLICY_VIOLATION = 1008"

text \<open>
  \<open>_connections\<close> maps a blog id to a set of sockets. A set is the list of its
  members without repetition, in the order the \<^verbatim>\<open>for\<close> loop visits them.
\<close>

type_synonym ChatManager = "int \<Rightarrow> WebSocket list option"

definition room :: "ChatManager \<Rightarrow> int \<Rightarrow> WebSocket list" where
  "room cm bid = (case cm bid of None \<Rightarrow> [] | Some conns \<Rightarrow> conns)"

definition chat_connect :: "ChatManager \<Rightarrow> net \<Rightarrow> int \<Rightarrow> WebSocket \<Rightarrow> ChatManager \<times> net" where
  "chat_connect cm n bid ws = (cm(bid \<mapsto> List.insert ws (room cm bid)), ws_accept n ws)"

definition chat_disconnect :: "ChatManager \<Rightarrow> int \<Rightarrow> WebSocket \<Rightarrow> ChatManager" where
  "chat_disconnect cm bid ws =
     (case cm bid of
        None \<Rightarrow> cm
      | Some conns \<Rightarrow>
          let conns' = removeAll ws conns
          in if conns' = [] then cm(bid := None) else cm(bid \<mapsto> conns'))"

fun broadcast_loop ::
  "ChatManager \<Rightarrow> net \<Rightarrow> int \<Rightarrow> string \<Rightarrow> WebSocket list \<Rightarrow> ChatManager \<times> net" where
  "broadcast_loop cm n bid message [] = (cm, n)"
| "broadcast_loop cm n bid message (ws # rest) =
     (case send_text n ws message of
        (Inr _, n') \<Rightarrow> broadcast_loop cm n' bid message rest
      | (Inl _, n') \<Rightarrow> broadcast_loop (chat_disconnect cm bid ws) n' bid message rest)"

definition broadcast :: "ChatManager \<Rightarrow> net \<Rightarrow> int \<Rightarrow> string \<Rightarrow> ChatManager \<times> net" where
  "broadcast cm n bid message =
     (let connections = room cm bid
      in broadcast_loop cm n bid message connections)"

section \<open>WebSocket endpoint (\<^verbatim>\<open>app/blogs/websocket.py\<close>)\<close>

definition get_user_from_token :: "pylib \<Rightarrow> User list \<Rightarrow> string \<Rightarrow> error + User option" where
  "get_user_from_token lib users token =
     (case verify_token lib token ''access'' of
        None \<Rightarrow> Inr None
      | Some payload \<Rightarrow>
          (case dict_get payload ''sub'' of
             JNull \<Rightarrow> Inr None
           | user_id \<Rightarrow>
               (case py_int lib user_id of
                  None \<Rightarrow> Inr None
                | Some user_id_int \<Rightarrow>
                    (case scalar_one_or_none (filter (\<lambda>u. u_id u = user_id_int) users) of
                       Inl e \<Rightarrow> Inl e
                     | Inr None \<Rightarrow> Inr None
                     | Inr (Some user) \<Rightarrow>
                         if \<not> is_active user then Inr None else Inr (Some user)))))"

text \<open>
  The state the handler works on: the table \<^verbatim>\<open>comments\<close>, the chat manager and the
  transport. The \<open>journal\<close> lists, in the order the handler makes them, the inserts
  into the table and the calls of \<^verbatim>\<open>send_text\<close>.
\<close>

datatype effect = Insert Comment | Send WebSocket string

record world =
  comments :: "Comment list"
  rooms :: ChatManager
  wire :: net
  journal :: "effect list"

text \<open>
  \<open>db_add\<close> is \<^verbatim>\<open>db.add(comment)\<close> with its flush; \<open>chat_broadcast\<close> is the handler's
  call of \<^verbatim>\<open>chat_manager.broadcast\<close>, which enters the calls of \<^verbatim>\<open>send_text\<close> it made.
\<close>

definition db_add :: "world \<Rightarrow> Comment \<Rightarrow> world" where
  "db_add w comment =
     w\<lparr>comments := comments w @ [comment], journal := journal w @ [Insert comment]\<rparr>"

definition chat_broadcast :: "world \<Rightarrow> int \<Rightarrow> string \<Rightarrow> world" where
  "chat_broadcast w bid message =
     (case broadcast (rooms w) (wire w) bid message of
        (cm, n) \<Rightarrow>
          w\<lparr>rooms := cm, wire := n,
            journal := journal w
              @ map (\<lambda>(ws, m). Send ws m) (drop (length (calls (wire w))) (calls n))\<rparr>)"

text \<open>
  The part of the endpoint before the receive loop. \<open>Refused\<close> is a return after
  \<^verbatim>\<open>websocket.close(code=...)\<close>, \<open>Joined\<close> the entry into the loop with the resolved
  user, \<open>Failed\<close> an exception that leaves the endpoint.
\<close>

datatype connect_result = Refused nat | Joined User | Failed error

definition ws_open ::
  "pylib \<Rightarrow> User list \<Rightarrow> Blog list \<Rightarrow> world \<Rightarrow> WebSocket \<Rightarrow> int \<Rightarrow> string option
   \<Rightarrow> connect_result \<times> world" where
  "ws_open lib users rows w ws bid token =
     (let refuse = (Refused WS_1008_POLICY_VIOLATION,
                    w\<lparr>wire := ws_close (wire w) ws WS_1008_POLICY_VIOLATION\<rparr>)
      in case token of
        None \<Rightarrow> refuse
      | Some tok \<Rightarrow>
          if tok = [] then refuse
          else (case get_user_from_token lib users tok of
                  Inl e \<Rightarrow> (Failed e, w)
                | Inr None \<Rightarrow> refuse
                | Inr (Some user) \<Rightarrow>
                    (case get_blog_by_id rows bid of
                       Inl e \<Rightarrow> (Failed e, w)
                     | Inr None \<Rightarrow> refuse
                     | Inr (Some blog) \<Rightarrow>
                         (case chat_connect (rooms w) (wire w) bid ws of
                            (cm, n) \<Rightarrow> (Joined user, w\<lparr>rooms := cm, wire := n\<rparr>)))))"

text \<open>
  One pass of the receive loop on the text frame \<open>raw\<close> that arrived at time \<open>now\<close>.
  \<open>Continue\<close> is the next iteration, \<open>Stop\<close> the end of the loop through the handler
  \<^verbatim>\<open>except Exception\<close>, which leaves the room and closes the socket. The inner handler
  catches \<^verbatim>\<open>json.JSONDecodeError\<close> only; any other exception of \<^verbatim>\<open>json.loads\<close> reaches the
  outer one.
\<close>

datatype frame_result = Continue world | Stop world

definition on_exception :: "world \<Rightarrow> int \<Rightarrow> WebSocket \<Rightarrow> frame_result" where
  "on_exception w bid ws =
     Stop (w\<lparr>rooms := chat_disconnect (rooms w) bid ws, wire := ws_close (wire w) ws 1000\<rparr>)"

definition outgoing :: "pylib \<Rightarrow> int \<Rightarrow> Comment \<Rightarrow> User \<Rightarrow> json" where
  "outgoing lib bid comment user =
     JObj [(''type'', JStr ''comment''),
           (''blog_id'', JInt bid),
           (''comment_id'', JInt (c_id comment)),
           (''content'', JStr (c_content comment)),
           (''user_id'', JInt (u_id user)),
           (''username'', JStr (username user)),
           (''created_at'', JStr (isoformat lib (c_created_at comment) @ ''Z''))]"

definition ws_frame ::
  "pylib \<Rightarrow> datetime \<Rightarrow> User \<Rightarrow> int \<Rightarrow> WebSocket \<Rightarrow> world \<Rightarrow> string \<Rightarrow> frame_result" where
  "ws_frame lib now user bid ws w raw =
     (case json_loads lib raw of
        Inl e \<Rightarrow> if e = JSONDecodeError then Continue w else on_exception w bid ws
      | Inr (JObj data) \<Rightarrow>
          let msg_type = dict_get data ''type''
          in if msg_type = JStr ''comment'' then
               (case or_empty (dict_get data ''content'') of
                  JStr s \<Rightarrow>
                    let text = str_strip lib s
                    in if text = [] then Continue w
                       else
                         let comment = \<lparr>c_id = next_id (map c_id (comments w)),
                                        c_content = text,
                                        c_blog_id = bid,
                                        c_user_id = u_id user,
                                        c_created_at = now\<rparr>;
                             w' = db_add w comment
                         in Continue (chat_broadcast w' bid
                                        (json_dumps lib (outgoing lib bid comment user)))
                | _ \<Rightarrow> on_exception w bid ws)
             else Continue w
      | Inr _ \<Rightarrow> on_exception w bid ws)"

text \<open>
  The receive loop on the frames a client sends before it goes away: the end of the
  list is the \<^verbatim>\<open>WebSocketDisconnect\<close> that \<^verbatim>\<open>receive_text\<close> raises.
\<close>

fun ws_loop ::
  "pylib \<Rightarrow> User \<Rightarrow> int \<Rightarrow> WebSocket \<Rightarrow> world \<Rightarrow> (datetime \<times> string) list \<Rightarrow> world" where
  "ws_loop lib user bid ws w [] = w\<lparr>rooms := chat_disconnect (rooms w) bid ws\<rparr>"
| "ws_loop lib user bid ws w ((now, raw) # rest) =
     (case ws_frame lib now user bid ws w raw of
        Continue w' \<Rightarrow> ws_loop lib user bid ws w' rest
      | Stop w' \<Rightarrow> w')"

definition blog_comments_websocket ::
  "pylib \<Rightarrow> User list \<Rightarrow> Blog list \<Rightarrow> world \<Rightarrow> WebSocket \<Rightarrow> int \<Rightarrow> string option
   \<Rightarrow> (datetime \<times> string) list \<Rightarrow> world" where
  "blog_comments_websocket lib users rows w ws bid token frames =
     (case ws_open lib users rows w ws bid token of
        (Joined user, w') \<Rightarrow> ws_loop lib user bid ws w' frames
      | (_, w') \<Rightarrow> w')"

section \<open>Sequences of requests\<close>

text \<open>
  The five operations on posts as requests to the endpoints, and the state they
  work on: the table \<^verbatim>\<open>blogs\<close> and the registry of event-stream clients.
\<close>

record app =
  blog_rows :: "Blog list"
  sse_clients :: NotificationsManager

datatype request =
    Submit User BlogCreate
  | Edit int User BlogUpdate
  | Delete int User
  | Approve int User
  | Reject int User

fun handle :: "pylib \<Rightarrow> app \<Rightarrow> datetime \<times> request \<Rightarrow> app" where
  "handle lib a (now, Submit u payload) =
     (case create_blog_endpoint lib (blog_rows a) (sse_clients a) now payload u of
        (_, rows', clients') \<Rightarrow> \<lparr>blog_rows = rows', sse_clients = clients'\<rparr>)"
| "handle lib a (now, Edit bid u payload) =
     a\<lparr>blog_rows := snd (update_blog_endpoint lib (blog_rows a) now bid payload u)\<rparr>"
| "handle lib a (now, Delete bid u) =
     a\<lparr>blog_rows := snd (delete_blog_endpoint (blog_rows a) now bid u)\<rparr>"
| "handle lib a (now, Approve bid u) =
     a\<lparr>blog_rows := snd (approve_blog_endpoint (blog_rows a) now bid u)\<rparr>"
| "handle lib a (now, Reject bid u) =
     a\<lparr>blog_rows := snd (reject_blog_endpoint (blog_rows a) now bid u)\<rparr>"

definition run :: "pylib \<Rightarrow> app \<Rightarrow> (datetime \<times> request) list \<Rightarrow> app" where
  "run lib a reqs = foldl (handle lib) a reqs"

definition status_of :: "Blog list \<Rightarrow> int \<Rightarrow> BlogStatus option" where
  "status_of rows bid = map_option status (find (\<lambda>b. b_id b = bid) rows)"

section \<open>Sample data\<close>

text \<open>
  Concrete users, posts and library functions on which the theorems below are
  instantiated.
\<close>

definition ex_author :: User where
  "ex_author = \<lparr>u_id = 1, username = ''ann'', role = USER, is_active = True\<rparr>"

definition ex_reader :: User where
  "ex_reader = \<lparr>u_id = 2, username = ''bob'', role = USER, is_active = True\<rparr>"

definition ex_admin :: User where
  "ex_admin = \<lparr>u_id = 3, username = ''root'', role = ADMIN, is_active = True\<rparr>"

definition ex_approver :: User where
  "ex_approver = \<lparr>u_id = 4, username = ''lee'', role = L1_APPROVER, is_active = True\<rparr>"

definition ex_users :: "User list" where
  "ex_users = [ex_author, ex_reader, ex_admin, ex_approver]"

definition ex_pending :: Blog where
  "ex_pending = \<lparr>b_id = 1, title = ''Draft'', content = ''C'', images = None,
                  status = PENDING, author_id = 1, created_at = 10, updated_at = 10,
                  deleted_at = None\<rparr>"

definition ex_approved :: Blog where
  "ex_approved = \<lparr>b_id = 2, title = ''Public'', content = ''C'', images = None,
                   status = APPROVED, author_id = 1, created_at = 20, updated_at = 25,
                   deleted_at = None\<rparr>"

definition ex_newer :: Blog where
  "ex_newer = \<lparr>b_id = 3, title = ''Newer'', content = ''C'', images = None,
                status = APPROVED, author_id = 2, created_at = 30, updated_at = 30,
                deleted_at = None\<rparr>"

definition ex_rows :: "Blog list" where
  "ex_rows = [ex_pending, ex_approved, ex_newer]"

text \<open>
  A text of 100000 opening brackets: it is not a JSON document, and \<^verbatim>\<open>json.loads\<close>
  gives up on it with \<^verbatim>\<open>RecursionError\<close> before it finds the syntax error.
\<close>

definition ex_deep :: string where
  "ex_deep = replicate 100000 (CHR ''['')"

text \<open>Removal of blanks at both ends, for texts of letters and blanks.\<close>

definition ex_strip :: "string \<Rightarrow> string" where
  "ex_strip s = rev (dropWhile (\<lambda>c. c = CHR '' '') (rev (dropWhile (\<lambda>c. c = CHR '' '') s)))"

text \<open>
  A library that parses three texts, each to one document, gives up on \<open>ex_deep\<close>,
  reports a syntax error on every other text, accepts one token for each of two
  users, and fixes the other functions.
\<close>

definition ex_lib :: pylib where
  "ex_lib = \<lparr>
     json_loads = (\<lambda>raw.
        if raw = ''hello'' then
          Inr (JObj [(''type'', JStr ''comment''), (''content'', JStr '' hello '')])
        else if raw = ''five'' then
          Inr (JObj [(''type'', JStr ''comment''), (''content'', JInt 5)])
        else if raw = ''ping'' then
          Inr (JObj [(''type'', JStr ''ping'')])
        else if raw = ex_deep then Inl RecursionError
        else Inl JSONDecodeError),
     json_dumps = (\<lambda>j. case j of
        JObj kvs \<Rightarrow>
          (case map_of kvs ''content'' of
             Some (JStr s) \<Rightarrow> s
           | _ \<Rightarrow> (case map_of kvs ''title'' of Some (JStr s) \<Rightarrow> s | _ \<Rightarrow> ''event''))
      | _ \<Rightarrow> ''other''),
     isoformat = (\<lambda>t. ''T''),
     jwt_decode = (\<lambda>tok.
        if tok = ''reader'' then Some [(''sub'', JStr ''2''), (''type'', JStr ''access'')]
        else if tok = ''admin'' then Some [(''sub'', JStr ''3''), (''type'', JStr ''access'')]
        else None),
     int_of_str = (\<lambda>s. if s = ''2'' then Some 2 else if s = ''3'' then Some 3 else None),
     str_len = length,
     str_strip = ex_strip\<rparr>"

definition ex_net :: net where
  "ex_net = \<lparr>broken = {8}, delivered = (\<lambda>ws. []), calls = [], accepted = [], closes = []\<rparr>"

definition ex_world :: world where
  "ex_world = \<lparr>comments = [], rooms = Map.empty, wire = ex_net, journal = []\<rparr>"

text \<open>A room of three connections; the send on connection 8 raises.\<close>

definition ex_rooms :: ChatManager where
  "ex_rooms = [1 \<mapsto> [7, 8, 9]]"




text \<open>The application with the sample posts and no event-stream client.\<close>

definition ex_app :: app where
  "ex_app = \<lparr>blog_rows = ex_rows, sse_clients = []\<rparr>"

definition ex_payload :: BlogCreate where
  "ex_payload = \<lparr>new_title = ''Title'', new_content = ''C'', new_images = None\<rparr>"

section \<open>Properties\<close>

subsection \<open>Lookup by primary key\<close>

lemma filter_key_absent:
  "bid \<notin> b_id ` set rows \<Longrightarrow> filter (\<lambda>b. b_id b = bid \<and> P b) rows = []"
  by (induction rows) auto

lemma filter_key_member:
  "distinct (map b_id rows) \<Longrightarrow> b \<in> set rows \<Longrightarrow>
   filter (\<lambda>r. b_id r = b_id b \<and> P r) rows = (if P b then [b] else [])"
proof (induction rows)
  case Nil
  then show ?case by simp
next
  case (Cons r rows)
  show ?case
  proof (cases "r = b")
    case True
    with Cons.prems have "b_id b \<notin> b_id ` set rows" by simp
    then have "filter (\<lambda>r. b_id r = b_id b \<and> P r) rows = []"
      by (rule filter_key_absent)
    with True show ?thesis by simp
  next
    case False
    with Cons.prems have mem: "b \<in> set rows" by simp
    with Cons.prems have "b_id r \<noteq> b_id b" by force
    with Cons.IH Cons.prems mem show ?thesis by simp
  qed
qed

lemma get_blog_by_id_member:
  "primary_key rows \<Longrightarrow> b \<in> set rows \<Longrightarrow>
   get_blog_by_id rows (b_id b) = Inr (if deleted_at b = None then Some b else None)"
  by (simp add: get_blog_by_id_def primary_key_def filter_key_member)

lemma get_blog_by_id_absent:
  "bid \<notin> b_id ` set rows \<Longrightarrow> get_blog_by_id rows bid = Inr None"
  by (simp add: get_blog_by_id_def filter_key_absent)

lemmas ex_defs = ex_author_def ex_reader_def ex_admin_def ex_approver_def ex_users_def
  ex_pending_def ex_approved_def ex_newer_def ex_rows_def

subsection \<open>Visibility of a post\<close>

text \<open>
  Claim C6. For every post of the table and every optional actor, the view endpoint
  returns the post exactly when the post is not soft-deleted and its status is
  APPROVED, or the actor is its author, or the actor's role is ADMIN or L1_APPROVER.
  In every other case, and for an id no post has, the answer is the same error
  \<open>not_found\<close>.
\<close>

theorem view_policy:
  assumes "primary_key rows"
  shows "(\<forall>b \<in> set rows.
            get_blog_endpoint rows (b_id b) actor =
              (if deleted_at b = None \<and>
                  (status b = APPROVED
                   \<or> (\<exists>u. actor = Some u \<and> (u_id u = author_id b \<or> role u = ADMIN \<or> role u = L1_APPROVER)))
               then Inr b else Inl not_found))
       \<and> (\<forall>bid. bid \<notin> b_id ` set rows \<longrightarrow> get_blog_endpoint rows bid actor = Inl not_found)"
  using assms
  by (auto simp: get_blog_endpoint_def get_blog_for_view_def get_blog_by_id_member
      get_blog_by_id_absent can_view_blog_def split: option.splits)

theorem view_policy_witness:
  "primary_key ex_rows \<and> ex_pending \<in> set ex_rows
   \<and> get_blog_endpoint ex_rows 1 (Some ex_author) = Inr ex_pending
   \<and> get_blog_endpoint ex_rows 1 (Some ex_admin) = Inr ex_pending
   \<and> get_blog_endpoint ex_rows 1 (Some ex_reader) = Inl not_found
   \<and> get_blog_endpoint ex_rows 1 None = Inl not_found
   \<and> get_blog_endpoint ex_rows 2 None = Inr ex_approved
   \<and> get_blog_endpoint ex_rows 7 None = Inl not_found"
proof -
  have pk: "primary_key ex_rows" by (simp add: primary_key_def ex_defs)
  have m1: "ex_pending \<in> set ex_rows" and m2: "ex_approved \<in> set ex_rows"
    by (simp_all add: ex_rows_def)
  have ab: "7 \<notin> b_id ` set ex_rows" by (simp add: ex_defs)
  note v = view_policy [OF pk]
  from v [of "Some ex_author"] m1
  have a: "get_blog_endpoint ex_rows (b_id ex_pending) (Some ex_author) = Inr ex_pending"
    by (simp add: ex_defs)
  from v [of "Some ex_admin"] m1
  have b: "get_blog_endpoint ex_rows (b_id ex_pending) (Some ex_admin) = Inr ex_pending"
    by (simp add: ex_defs)
  from v [of "Some ex_reader"] m1
  have c: "get_blog_endpoint ex_rows (b_id ex_pending) (Some ex_reader) = Inl not_found"
    by (simp add: ex_defs)
  from v [of None] m1 m2 ab
  have d: "get_blog_endpoint ex_rows (b_id ex_pending) None = Inl not_found"
    "get_blog_endpoint ex_rows (b_id ex_approved) None = Inr ex_approved"
    "get_blog_endpoint ex_rows 7 None = Inl not_found"
    by (simp_all add: ex_defs)
  have ids: "b_id ex_pending = 1" "b_id ex_approved = 2" by (simp_all add: ex_defs)
  from pk m1 a b c d show ?thesis unfolding ids by simp
qed

subsection \<open>Writing a row back\<close>

lemma map_b_id_flush_blog: "map b_id (flush_blog rows b) = map b_id rows"
  by (induction rows) (auto simp: flush_blog_def)

lemma primary_key_flush_blog: "primary_key rows \<Longrightarrow> primary_key (flush_blog rows b)"
  by (simp add: primary_key_def map_b_id_flush_blog)

lemma flush_blog_member:
  "b \<in> set rows \<Longrightarrow> b_id b' = b_id b \<Longrightarrow> b' \<in> set (flush_blog rows b')"
  by (induction rows) (auto simp: flush_blog_def)

lemma find_flush_blog:
  "find (\<lambda>r. b_id r = bid) (flush_blog rows b') =
     map_option (\<lambda>r. if bid = b_id b' then b' else r) (find (\<lambda>r. b_id r = bid) rows)"
  by (induction rows) (auto simp: flush_blog_def)

lemma find_key_member:
  "distinct (map b_id rows) \<Longrightarrow> b \<in> set rows \<Longrightarrow> find (\<lambda>r. b_id r = b_id b) rows = Some b"
  by (induction rows) force+

lemma status_of_member:
  "primary_key rows \<Longrightarrow> b \<in> set rows \<Longrightarrow> status_of rows (b_id b) = Some (status b)"
  by (simp add: status_of_def primary_key_def find_key_member)

subsection \<open>Approving and rejecting\<close>

lemma require_approver_ok:
  "is_active u \<Longrightarrow> role u = ADMIN \<or> role u = L1_APPROVER \<Longrightarrow> require_approver u = Inr u"
  by (auto simp: require_approver_def get_current_active_user_def)

lemma approve_pending:
  assumes pk: "primary_key rows" and mem: "b \<in> set rows" and live: "deleted_at b = None"
    and ok: "require_approver u = Inr u" and st: "status b \<noteq> APPROVED"
  shows "approve_blog_endpoint rows t (b_id b) u =
           (Inr (b\<lparr>status := APPROVED, updated_at := t\<rparr>),
            flush_blog rows (b\<lparr>status := APPROVED, updated_at := t\<rparr>))"
  using st by (simp add: approve_blog_endpoint_def ok get_blog_by_id_member [OF pk mem] live
      approve_blog_def Let_def)

lemma approve_approved:
  assumes pk: "primary_key rows" and mem: "b \<in> set rows" and live: "deleted_at b = None"
    and ok: "require_approver u = Inr u" and st: "status b = APPROVED"
  shows "approve_blog_endpoint rows t (b_id b) u =
           (Inl (HTTPException 400 ''Blog is already approved''), rows)"
  using st by (simp add: approve_blog_endpoint_def ok get_blog_by_id_member [OF pk mem] live)

lemma reject_rejected:
  assumes pk: "primary_key rows" and mem: "b \<in> set rows" and live: "deleted_at b = None"
    and ok: "require_approver u = Inr u" and st: "status b = REJECTED"
  shows "reject_blog_endpoint rows t (b_id b) u =
           (Inl (HTTPException 400 ''Blog is already rejected''), rows)"
  using st by (simp add: reject_blog_endpoint_def ok get_blog_by_id_member [OF pk mem] live)

text \<open>
  Claim C7. For a post in PENDING status that is not soft-deleted and an active actor
  with role ADMIN or L1_APPROVER, the first approval returns the approved post, the
  second is refused with the error ``Blog is already approved'' (HTTP 400), the table
  after the second call is the table after the first (status and timestamps
  unchanged), and the post is APPROVED after both. Approving a post that is already
  APPROVED and rejecting a post that is already REJECTED are refused the same way and
  leave the table unchanged.
\<close>

theorem approve_twice_conflict:
  assumes pk: "primary_key rows" and mem: "b \<in> set rows" and live: "deleted_at b = None"
    and act: "is_active u" and rl: "role u = ADMIN \<or> role u = L1_APPROVER"
  shows "(status b = PENDING \<longrightarrow>
            (case approve_blog_endpoint rows t1 (b_id b) u of (r1, rows1) \<Rightarrow>
             case approve_blog_endpoint rows1 t2 (b_id b) u of (r2, rows2) \<Rightarrow>
               r1 = Inr (b\<lparr>status := APPROVED, updated_at := t1\<rparr>)
             \<and> r2 = Inl (HTTPException 400 ''Blog is already approved'')
             \<and> rows2 = rows1
             \<and> get_blog_by_id rows2 (b_id b) = Inr (Some (b\<lparr>status := APPROVED, updated_at := t1\<rparr>))))
       \<and> (status b = APPROVED \<longrightarrow>
            approve_blog_endpoint rows t1 (b_id b) u =
              (Inl (HTTPException 400 ''Blog is already approved''), rows))
       \<and> (status b = REJECTED \<longrightarrow>
            reject_blog_endpoint rows t1 (b_id b) u =
              (Inl (HTTPException 400 ''Blog is already rejected''), rows))"
proof -
  have ok: "require_approver u = Inr u" using act rl by (rule require_approver_ok)
  let ?b = "b\<lparr>status := APPROVED, updated_at := t1\<rparr>"
  let ?rows = "flush_blog rows ?b"
  have first: "status b = PENDING \<Longrightarrow> approve_blog_endpoint rows t1 (b_id b) u = (Inr ?b, ?rows)"
    using approve_pending [OF pk mem live ok] by simp
  have pk': "primary_key ?rows" using pk by (rule primary_key_flush_blog)
  have mem': "?b \<in> set ?rows" using mem by (rule flush_blog_member) simp
  have second: "approve_blog_endpoint ?rows t2 (b_id b) u =
      (Inl (HTTPException 400 ''Blog is already approved''), ?rows)"
    using approve_approved [OF pk' mem' _ ok, of t2] live by simp
  have look: "get_blog_by_id ?rows (b_id b) = Inr (Some ?b)"
    using get_blog_by_id_member [OF pk' mem'] live by simp
  show ?thesis
    using first second look approve_approved [OF pk mem live ok] reject_rejected [OF pk mem live ok]
    by simp
qed

theorem approve_twice_conflict_witness:
  "primary_key ex_rows \<and> ex_pending \<in> set ex_rows \<and> deleted_at ex_pending = None
   \<and> is_active ex_approver \<and> role ex_approver = L1_APPROVER \<and> status ex_pending = PENDING
   \<and> fst (approve_blog_endpoint ex_rows 40 1 ex_approver)
        = Inr (ex_pending\<lparr>status := APPROVED, updated_at := 40\<rparr>)
   \<and> approve_blog_endpoint (snd (approve_blog_endpoint ex_rows 40 1 ex_approver)) 50 1 ex_approver
        = (Inl (HTTPException 400 ''Blog is already approved''),
           snd (approve_blog_endpoint ex_rows 40 1 ex_approver))"
proof -
  have pk: "primary_key ex_rows" by (simp add: primary_key_def ex_defs)
  have mem: "ex_pending \<in> set ex_rows" by (simp add: ex_rows_def)
  have live: "deleted_at ex_pending = None" by (simp add: ex_pending_def)
  have act: "is_active ex_approver" by (simp add: ex_approver_def)
  have rl: "role ex_approver = ADMIN \<or> role ex_approver = L1_APPROVER"
    by (simp add: ex_approver_def)
  have st: "status ex_pending = PENDING" by (simp add: ex_pending_def)
  have i: "b_id ex_pending = 1" by (simp add: ex_pending_def)
  from approve_twice_conflict [OF pk mem live act rl, of 40 50] st
  show ?thesis using pk mem live act
    unfolding i by (auto simp: ex_approver_def split: prod.splits)
qed

subsection \<open>Public listing\<close>

lemma sorted_desc_sort_key:
  "sorted_wrt (\<lambda>a b. created_at b \<le> created_at a) (sort_key (\<lambda>b. - created_at b) xs)"
proof -
  have "sorted (map (\<lambda>b. - created_at b) (sort_key (\<lambda>b. - created_at b) xs))"
    by (rule sorted_sort_key)
  then show ?thesis by (simp add: sorted_map)
qed

text \<open>
  Claim C9. For valid query parameters (\<open>1 \<le> limit \<le> 100\<close>, \<open>0 \<le> offset\<close>) the public
  listing answers with a page of an ordering of exactly the approved, non-deleted
  posts by creation timestamp, newest first: the items are the \<open>limit\<close> posts of that
  ordering that follow its first \<open>offset\<close> posts (fewer at the end), and the total is
  the number of all approved non-deleted posts, whatever the window.
\<close>

theorem list_blogs_page:
  assumes "1 \<le> limit" and "limit \<le> 100" and "0 \<le> offset"
  shows "\<exists>resp ordered.
           list_blogs rows limit offset = Inr resp
         \<and> mset ordered = mset (filter (\<lambda>b. status b = APPROVED \<and> deleted_at b = None) rows)
         \<and> sorted_wrt (\<lambda>a b. created_at b \<le> created_at a) ordered
         \<and> resp_items resp = take (nat limit) (drop (nat offset) ordered)
         \<and> length (resp_items resp) \<le> nat limit
         \<and> resp_total resp = int (length (filter (\<lambda>b. status b = APPROVED \<and> deleted_at b = None) rows))"
proof -
  let ?live = "filter (\<lambda>b. status b = APPROVED \<and> deleted_at b = None) rows"
  let ?ordered = "sort_key (\<lambda>b. - created_at b) ?live"
  let ?resp = "\<lparr>resp_items = take (nat limit) (drop (nat offset) ?ordered),
                resp_total = int (length ?live), resp_limit = limit, resp_offset = offset\<rparr>"
  have live: "filter approved_live rows = ?live"
    by (simp add: approved_live_def [abs_def])
  have "list_blogs rows limit offset = Inr ?resp"
    using assms by (simp add: list_blogs_def list_approved_blogs_def live Let_def)
  moreover have "mset ?ordered = mset ?live" by simp
  moreover have "sorted_wrt (\<lambda>a b. created_at b \<le> created_at a) ?ordered"
    by (rule sorted_desc_sort_key)
  ultimately show ?thesis by (intro exI [of _ ?resp] exI [of _ ?ordered]) simp
qed

theorem list_blogs_page_witness:
  "(1::int) \<le> 1 \<and> (1::int) \<le> 100 \<and> (0::int) \<le> 1
   \<and> list_blogs ex_rows 1 1 =
       Inr \<lparr>resp_items = [ex_approved], resp_total = 2, resp_limit = 1, resp_offset = 1\<rparr>
   \<and> (\<exists>resp ordered.
           list_blogs ex_rows 1 1 = Inr resp
         \<and> mset ordered = mset (filter (\<lambda>b. status b = APPROVED \<and> deleted_at b = None) ex_rows)
         \<and> sorted_wrt (\<lambda>a b. created_at b \<le> created_at a) ordered
         \<and> resp_items resp = take (nat 1) (drop (nat 1) ordered)
         \<and> length (resp_items resp) \<le> nat 1
         \<and> resp_total resp = int (length (filter (\<lambda>b. status b = APPROVED \<and> deleted_at b = None) ex_rows)))"
proof -
  have h1: "(1::int) \<le> 1" and h2: "(1::int) \<le> 100" and h3: "(0::int) \<le> 1" by simp_all
  have v: "list_blogs ex_rows 1 1 =
       Inr \<lparr>resp_items = [ex_approved], resp_total = 2, resp_limit = 1, resp_offset = 1\<rparr>"
    by (simp add: list_blogs_def list_approved_blogs_def approved_live_def ex_defs Let_def)
  from list_blogs_page [OF h1 h2 h3, of ex_rows] v show ?thesis by simp
qed

subsection \<open>Event stream\<close>

lemma fan_out_map: "fan_out message clients = map (\<lambda>(cid, q). (cid, q @ [message])) clients"
  by (induction clients) (auto simp: put_nowait_def)

lemma notify_map:
  "notify_new_pending_blog lib clients blog =
     map (\<lambda>(cid, q). (cid, q @ [json_dumps lib (pending_payload blog)])) clients"
  by (simp add: notify_new_pending_blog_def fan_out_map)

lemma map_of_append_queue:
  "map_of (map (\<lambda>(cid, q). (cid, q @ [m])) clients) c = map_option (\<lambda>q. q @ [m]) (map_of clients c)"
  by (induction clients) auto

lemma notify_lookup:
  "map_of clients c = Some q \<Longrightarrow>
   map_of (notify_new_pending_blog lib clients blog) c
     = Some (q @ [json_dumps lib (pending_payload blog)])"
  by (simp add: notify_map map_of_append_queue)

lemma map_of_dict_set: "map_of (dict_set d k v) k = Some v"
  by (induction d k v rule: dict_set.induct) auto

text \<open>
  Claim C3, as amended. For every active actor, opening the event stream succeeds
  exactly when the actor's role is ADMIN: then a mailbox is registered under the
  fresh client id. An actor with role L1_APPROVER or USER is rejected with the
  authorization error 403 and the registry of mailboxes is unchanged.
\<close>

theorem sse_admin_only:
  assumes "is_active u"
  shows "(role u = ADMIN \<longrightarrow>
            notifications_sse lib clients cid u =
              (Inr (fst (sse_connect lib clients cid)), dict_set clients cid []))
       \<and> (role u \<noteq> ADMIN \<longrightarrow>
            notifications_sse lib clients cid u =
              (Inl (HTTPException 403 ''Access denied. Admin role required.''), clients))"
  using assms
  by (simp add: notifications_sse_def require_admin_def get_current_active_user_def
      sse_connect_def)

theorem sse_admin_only_witness:
  "is_active ex_admin \<and> is_active ex_reader
   \<and> notifications_sse ex_lib [] ''c1'' ex_admin
       = (Inr (fst (sse_connect ex_lib [] ''c1'')), [(''c1'', [])])
   \<and> notifications_sse ex_lib [] ''c1'' ex_reader
       = (Inl (HTTPException 403 ''Access denied. Admin role required.''), [])"
proof -
  have a: "is_active ex_admin" and b: "is_active ex_reader" by (simp_all add: ex_defs)
  from sse_admin_only [OF a, of ex_lib "[]" "''c1''"] sse_admin_only [OF b, of ex_lib "[]" "''c1''"]
  show ?thesis using a b by (simp add: ex_defs)
qed

theorem sse_approver_counterexample:
  "role ex_approver = L1_APPROVER \<and> is_active ex_approver
   \<and> notifications_sse ex_lib [] ''c1'' ex_approver
       = (Inl (HTTPException 403 ''Access denied. Admin role required.''), [])"
  by (simp add: notifications_sse_def require_admin_def get_current_active_user_def
      ex_approver_def)

text \<open>
  Claim C8. Publishing with no registered mailbox returns the empty registry. With
  registered mailboxes, the registry after the publish has the same client ids in
  the same order and each queue is the old queue followed by the event, so the event
  is enqueued in exactly the mailboxes registered at that moment. A mailbox
  registered after the publish is empty, so it does not hold the event. After two
  publishes a mailbox that stayed registered holds its old content, then the first
  event, then the second, and the subscriber is handed them in that order.
\<close>

theorem publish_fan_out:
  "notify_new_pending_blog lib [] blog = []
   \<and> notify_new_pending_blog lib clients blog =
       map (\<lambda>(c, q). (c, q @ [json_dumps lib (pending_payload blog)])) clients
   \<and> (\<forall>c q. map_of clients c = Some q \<longrightarrow>
         map_of (notify_new_pending_blog lib clients blog) c
           = Some (q @ [json_dumps lib (pending_payload blog)]))
   \<and> map_of (snd (sse_connect lib (notify_new_pending_blog lib clients blog) cid)) cid = Some []
   \<and> (\<forall>c q. map_of clients c = Some q \<longrightarrow>
         map_of (notify_new_pending_blog lib (notify_new_pending_blog lib clients blog) blog2) c
           = Some (q @ [json_dumps lib (pending_payload blog), json_dumps lib (pending_payload blog2)]))
   \<and> (\<forall>c. map_of clients c = Some [] \<longrightarrow>
         (case sse_next (notify_new_pending_blog lib (notify_new_pending_blog lib clients blog) blog2) c of
            (out1, clients1) \<Rightarrow>
              out1 = ''data: '' @ json_dumps lib (pending_payload blog) @ [CHR 0x0A, CHR 0x0A]
            \<and> fst (sse_next clients1 c)
                = ''data: '' @ json_dumps lib (pending_payload blog2) @ [CHR 0x0A, CHR 0x0A]))"
proof -
  let ?m1 = "json_dumps lib (pending_payload blog)"
  let ?m2 = "json_dumps lib (pending_payload blog2)"
  let ?once = "notify_new_pending_blog lib clients blog"
  let ?twice = "notify_new_pending_blog lib ?once blog2"
  have none: "notify_new_pending_blog lib [] blog = []"
    by (simp add: notify_new_pending_blog_def)
  have all: "?once = map (\<lambda>(c, q). (c, q @ [?m1])) clients"
    by (rule notify_map)
  have one: "map_of ?once c = Some (q @ [?m1])" if "map_of clients c = Some q" for c q
    using that by (simp add: notify_lookup)
  have late: "map_of (snd (sse_connect lib ?once cid)) cid = Some []"
    by (simp add: sse_connect_def map_of_dict_set)
  have two: "map_of ?twice c = Some (q @ [?m1, ?m2])" if "map_of clients c = Some q" for c q
    using one [OF that] by (simp add: notify_lookup)
  have read: "case sse_next ?twice c of (out1, clients1) \<Rightarrow>
        out1 = ''data: '' @ ?m1 @ [CHR 0x0A, CHR 0x0A]
      \<and> fst (sse_next clients1 c) = ''data: '' @ ?m2 @ [CHR 0x0A, CHR 0x0A]"
    if "map_of clients c = Some []" for c
  proof -
    have "map_of ?twice c = Some [?m1, ?m2]" using two [OF that] by simp
    then show ?thesis by (simp add: sse_next_def map_of_dict_set)
  qed
  from none all one late two read show ?thesis by blast
qed

theorem publish_fan_out_witness:
  "map_of [(''c1'', []), (''c2'', [''old''])] ''c1'' = Some []
   \<and> map_of [(''c1'', []), (''c2'', [''old''])] ''c2'' = Some [''old'']
   \<and> notify_new_pending_blog ex_lib [(''c1'', []), (''c2'', [''old''])] ex_pending
       = [(''c1'', [''Draft'']), (''c2'', [''old'', ''Draft''])]
   \<and> map_of (notify_new_pending_blog ex_lib
         (notify_new_pending_blog ex_lib [(''c1'', []), (''c2'', [''old''])] ex_pending) ex_newer) ''c2''
       = Some [''old'', ''Draft'', ''Newer'']
   \<and> map_of (snd (sse_connect ex_lib
         (notify_new_pending_blog ex_lib [(''c1'', []), (''c2'', [''old''])] ex_pending) ''c3'')) ''c3''
       = Some []"
proof -
  let ?cs = "[(''c1'', []), (''c2'', [''old''])] :: NotificationsManager"
  have m1: "json_dumps ex_lib (pending_payload ex_pending) = ''Draft''"
    and m2: "json_dumps ex_lib (pending_payload ex_newer) = ''Newer''"
    by (simp_all add: ex_lib_def pending_payload_def ex_defs)
  have h1: "map_of ?cs ''c1'' = Some []" and h2: "map_of ?cs ''c2'' = Some [''old'']"
    by simp_all
  note p = publish_fan_out [of ex_lib ex_pending ?cs "''c3''" ex_newer, unfolded m1 m2]
  from p have all: "notify_new_pending_blog ex_lib ?cs ex_pending
      = map (\<lambda>(c, q). (c, q @ [''Draft''])) ?cs" by blast
  from p have two: "map_of ?cs ''c2'' = Some [''old''] \<longrightarrow>
      map_of (notify_new_pending_blog ex_lib (notify_new_pending_blog ex_lib ?cs ex_pending) ex_newer) ''c2''
        = Some ([''old''] @ [''Draft'', ''Newer''])" by blast
  from p have late: "map_of (snd (sse_connect ex_lib
      (notify_new_pending_blog ex_lib ?cs ex_pending) ''c3'')) ''c3'' = Some []" by blast
  from all have all': "notify_new_pending_blog ex_lib ?cs ex_pending
      = [(''c1'', [''Draft'']), (''c2'', [''old'', ''Draft''])]" by simp
  from two h2 have two': "map_of (notify_new_pending_blog ex_lib
      (notify_new_pending_blog ex_lib ?cs ex_pending) ex_newer) ''c2''
        = Some [''old'', ''Draft'', ''Newer'']" by simp
  from h1 h2 all' two' late show ?thesis by blast
qed

subsection \<open>Broadcast\<close>

lemma room_chat_disconnect:
  "room (chat_disconnect cm bid ws) bid' =
     (if bid' = bid then removeAll ws (room cm bid) else room cm bid')"
  by (auto simp: room_def chat_disconnect_def Let_def split: option.splits)

lemma broken_send_text: "broken (snd (send_text n ws m)) = broken n"
  by (simp add: send_text_def)

lemma calls_send_text: "calls (snd (send_text n ws m)) = calls n @ [(ws, m)]"
  by (simp add: send_text_def)

lemma delivered_send_text:
  "delivered (snd (send_text n ws m)) x =
     (if x = ws \<and> ws \<notin> broken n then delivered n x @ [m] else delivered n x)"
  by (simp add: send_text_def)

lemma send_text_fails: "fst (send_text n ws m) = Inl e \<longleftrightarrow> ws \<in> broken n \<and> e = WebSocketDisconnect"
  by (auto simp: send_text_def)

lemma broadcast_loop_step:
  "broadcast_loop cm n bid m (ws # rest) =
     broadcast_loop (if ws \<in> broken n then chat_disconnect cm bid ws else cm)
       (snd (send_text n ws m)) bid m rest"
  by (simp add: send_text_def)

lemma broadcast_loop_room:
  "room (fst (broadcast_loop cm n bid m conns)) bid' =
     (if bid' = bid then filter (\<lambda>ws. ws \<notin> broken n \<or> ws \<notin> set conns) (room cm bid)
      else room cm bid')"
proof (induction conns arbitrary: cm n)
  case Nil
  then show ?case by simp
next
  case (Cons ws rest)
  show ?case
    unfolding broadcast_loop_step
    by (auto simp: Cons.IH broken_send_text room_chat_disconnect removeAll_filter_not_eq
        filter_filter intro!: filter_cong)
qed

lemma broadcast_loop_broken: "broken (snd (broadcast_loop cm n bid m conns)) = broken n"
proof (induction conns arbitrary: cm n)
  case Nil
  then show ?case by simp
next
  case (Cons ws rest)
  show ?case unfolding broadcast_loop_step by (simp add: Cons.IH broken_send_text)
qed

lemma broadcast_loop_calls:
  "calls (snd (broadcast_loop cm n bid m conns)) = calls n @ map (\<lambda>ws. (ws, m)) conns"
proof (induction conns arbitrary: cm n)
  case Nil
  then show ?case by simp
next
  case (Cons ws rest)
  show ?case unfolding broadcast_loop_step by (simp add: Cons.IH calls_send_text)
qed

lemma broadcast_loop_delivered:
  "distinct conns \<Longrightarrow>
   delivered (snd (broadcast_loop cm n bid m conns)) x =
     (if x \<in> set conns \<and> x \<notin> broken n then delivered n x @ [m] else delivered n x)"
proof (induction conns arbitrary: cm n)
  case Nil
  then show ?case by simp
next
  case (Cons ws rest)
  then have d: "distinct rest" and nin: "ws \<notin> set rest" by simp_all
  show ?case
    unfolding broadcast_loop_step
    using nin by (auto simp: Cons.IH [OF d] broken_send_text delivered_send_text)
qed

text \<open>
  Claim C4. A broadcast to a room works on the membership at its start and calls
  \<^verbatim>\<open>send_text\<close> once on each of these connections, in turn. It always returns: a
  send that raises is caught. Afterwards the room holds the members whose send did
  not raise, each of them has received the message, the others have received
  nothing, and other rooms are untouched. The next broadcast to the room calls
  \<^verbatim>\<open>send_text\<close> on the remaining members only.
\<close>

theorem broadcast_isolation:
  assumes "distinct (room cm bid)"
  shows "case broadcast cm n bid m of (cm', n') \<Rightarrow>
           room cm' bid = filter (\<lambda>ws. ws \<notin> broken n) (room cm bid)
         \<and> (\<forall>bid'. bid' \<noteq> bid \<longrightarrow> room cm' bid' = room cm bid')
         \<and> (\<forall>ws. delivered n' ws =
                (if ws \<in> set (room cm bid) \<and> ws \<notin> broken n then delivered n ws @ [m]
                 else delivered n ws))
         \<and> calls n' = calls n @ map (\<lambda>ws. (ws, m)) (room cm bid)
         \<and> (case broadcast cm' n' bid m2 of (cm'', n'') \<Rightarrow>
               calls n'' = calls n' @ map (\<lambda>ws. (ws, m2)) (filter (\<lambda>ws. ws \<notin> broken n) (room cm bid)))"
proof -
  obtain cm' n' where r: "broadcast cm n bid m = (cm', n')" by force
  then have cm': "cm' = fst (broadcast_loop cm n bid m (room cm bid))"
    and n': "n' = snd (broadcast_loop cm n bid m (room cm bid))"
    by (simp_all add: broadcast_def)
  have room_same: "room cm' bid = filter (\<lambda>ws. ws \<notin> broken n) (room cm bid)"
    unfolding cm' broadcast_loop_room by (auto intro: filter_cong)
  have room_other: "room cm' bid' = room cm bid'" if "bid' \<noteq> bid" for bid'
    unfolding cm' broadcast_loop_room using that by simp
  have del: "delivered n' ws =
      (if ws \<in> set (room cm bid) \<and> ws \<notin> broken n then delivered n ws @ [m] else delivered n ws)"
    for ws
    unfolding n' using assms by (rule broadcast_loop_delivered)
  have cl: "calls n' = calls n @ map (\<lambda>ws. (ws, m)) (room cm bid)"
    unfolding n' by (rule broadcast_loop_calls)
  have "calls (snd (broadcast cm' n' bid m2)) = calls n' @ map (\<lambda>ws. (ws, m2)) (room cm' bid)"
    unfolding broadcast_def Let_def by (rule broadcast_loop_calls)
  then have nxt: "case broadcast cm' n' bid m2 of (cm'', n'') \<Rightarrow>
      calls n'' = calls n' @ map (\<lambda>ws. (ws, m2)) (filter (\<lambda>ws. ws \<notin> broken n) (room cm bid))"
    by (auto simp: room_same split: prod.splits)
  from room_same room_other del cl nxt show ?thesis
    unfolding r by simp
qed

theorem broadcast_isolation_witness:
  "distinct (room ex_rooms 1)
   \<and> room (fst (broadcast ex_rooms ex_net 1 ''m'')) 1 = [7, 9]
   \<and> delivered (snd (broadcast ex_rooms ex_net 1 ''m'')) 7 = [''m'']
   \<and> delivered (snd (broadcast ex_rooms ex_net 1 ''m'')) 8 = []
   \<and> delivered (snd (broadcast ex_rooms ex_net 1 ''m'')) 9 = [''m'']
   \<and> calls (snd (broadcast (fst (broadcast ex_rooms ex_net 1 ''m''))
                            (snd (broadcast ex_rooms ex_net 1 ''m'')) 1 ''m2''))
       = [(7, ''m''), (8, ''m''), (9, ''m''), (7, ''m2''), (9, ''m2'')]"
proof -
  have r: "room ex_rooms 1 = [7, 8, 9]" by (simp add: room_def ex_rooms_def)
  have d: "distinct (room ex_rooms 1)" by (simp add: r)
  have b: "broken ex_net = {8}" and c: "calls ex_net = []" and dl: "delivered ex_net = (\<lambda>ws. [])"
    by (simp_all add: ex_net_def)
  from broadcast_isolation [OF d, of ex_net "''m''" "''m2''"]
  show ?thesis using d unfolding r b c dl
    by (auto split: prod.splits)
qed

subsection \<open>Opening a chat connection\<close>

lemma get_blog_by_id_cases:
  assumes "primary_key rows"
  shows "get_blog_by_id rows bid = Inr None \<and> \<not> (\<exists>b\<in>set rows. b_id b = bid \<and> deleted_at b = None)
       \<or> (\<exists>b\<in>set rows. b_id b = bid \<and> deleted_at b = None \<and> get_blog_by_id rows bid = Inr (Some b))"
proof (cases "bid \<in> b_id ` set rows")
  case False
  then have "get_blog_by_id rows bid = Inr None" by (rule get_blog_by_id_absent)
  moreover from False have "\<not> (\<exists>b\<in>set rows. b_id b = bid \<and> deleted_at b = None)" by blast
  ultimately show ?thesis by blast
next
  case True
  then obtain b where b: "b \<in> set rows" "b_id b = bid" by blast
  from assms have inj: "inj_on b_id (set rows)" by (simp add: primary_key_def distinct_map)
  have u: "b' = b" if "b' \<in> set rows" "b_id b' = bid" for b'
    using inj that b by (blast dest: inj_onD)
  have g: "get_blog_by_id rows bid = Inr (if deleted_at b = None then Some b else None)"
    using get_blog_by_id_member [OF assms b(1)] b(2) by simp
  show ?thesis
  proof (cases "deleted_at b")
    case None
    with g b show ?thesis by auto
  next
    case (Some t)
    with g have "get_blog_by_id rows bid = Inr None" by simp
    moreover have "\<not> (\<exists>b\<in>set rows. b_id b = bid \<and> deleted_at b = None)"
      using u Some by auto
    ultimately show ?thesis by blast
  qed
qed

text \<open>
  Claim C2, as amended. For every chat connection attempt on a post by an
  authenticated actor (the token resolves to an active user), the connection is
  accepted and added to the post's room exactly when the post exists and is not
  soft-deleted; the post's status and the actor's role or authorship are not
  looked at. When the post is missing or soft-deleted the connection is closed with
  the policy-violation code 1008 and the rooms are unchanged.
\<close>

theorem ws_open_policy:
  assumes "primary_key rows" and "tok \<noteq> []"
    and "get_user_from_token lib users tok = Inr (Some user)"
  shows "((\<exists>b\<in>set rows. b_id b = bid \<and> deleted_at b = None) \<longrightarrow>
            ws_open lib users rows w ws bid (Some tok) =
              (Joined user,
               w\<lparr>rooms := (rooms w)(bid \<mapsto> List.insert ws (room (rooms w) bid)),
                 wire := ws_accept (wire w) ws\<rparr>))
       \<and> (\<not> (\<exists>b\<in>set rows. b_id b = bid \<and> deleted_at b = None) \<longrightarrow>
            ws_open lib users rows w ws bid (Some tok) =
              (Refused WS_1008_POLICY_VIOLATION,
               w\<lparr>wire := ws_close (wire w) ws WS_1008_POLICY_VIOLATION\<rparr>))"
  using get_blog_by_id_cases [OF assms(1), of bid] assms(2,3)
  by (auto simp: ws_open_def chat_connect_def Let_def)

lemma ex_reader_token: "get_user_from_token ex_lib ex_users ''reader'' = Inr (Some ex_reader)"
  by (simp add: get_user_from_token_def verify_token_def dict_get_def ex_lib_def ex_defs)

theorem ws_open_policy_witness:
  "primary_key ex_rows \<and> ''reader'' \<noteq> []
   \<and> get_user_from_token ex_lib ex_users ''reader'' = Inr (Some ex_reader)
   \<and> fst (ws_open ex_lib ex_users ex_rows ex_world 7 2 (Some ''reader'')) = Joined ex_reader
   \<and> room (rooms (snd (ws_open ex_lib ex_users ex_rows ex_world 7 2 (Some ''reader'')))) 2 = [7]
   \<and> fst (ws_open ex_lib ex_users ex_rows ex_world 7 5 (Some ''reader''))
       = Refused WS_1008_POLICY_VIOLATION
   \<and> room (rooms (snd (ws_open ex_lib ex_users ex_rows ex_world 7 5 (Some ''reader'')))) 5 = []"
proof -
  have pk: "primary_key ex_rows" by (simp add: primary_key_def ex_defs)
  have tk: "''reader'' \<noteq> []" by simp
  have yes: "\<exists>b\<in>set ex_rows. b_id b = 2 \<and> deleted_at b = None" by (simp add: ex_defs)
  have no: "\<not> (\<exists>b\<in>set ex_rows. b_id b = 5 \<and> deleted_at b = None)" by (simp add: ex_defs)
  from ws_open_policy [OF pk tk ex_reader_token, of 2 ex_world 7] yes
  have a: "ws_open ex_lib ex_users ex_rows ex_world 7 2 (Some ''reader'') =
      (Joined ex_reader,
       ex_world\<lparr>rooms := (rooms ex_world)(2 \<mapsto> List.insert 7 (room (rooms ex_world) 2)),
                wire := ws_accept (wire ex_world) 7\<rparr>)" by blast
  from ws_open_policy [OF pk tk ex_reader_token, of 5 ex_world 7] no
  have b: "ws_open ex_lib ex_users ex_rows ex_world 7 5 (Some ''reader'') =
      (Refused WS_1008_POLICY_VIOLATION,
       ex_world\<lparr>wire := ws_close (wire ex_world) 7 WS_1008_POLICY_VIOLATION\<rparr>)" by blast
  show ?thesis using pk ex_reader_token unfolding a b
    by (simp add: room_def ex_world_def)
qed

theorem ws_open_hidden_post_counterexample:
  "get_blog_by_id ex_rows 1 = Inr (Some ex_pending)
   \<and> \<not> can_view_blog ex_pending (Some ex_reader)
   \<and> fst (ws_open ex_lib ex_users ex_rows ex_world 7 1 (Some ''reader'')) = Joined ex_reader
   \<and> room (rooms (snd (ws_open ex_lib ex_users ex_rows ex_world 7 1 (Some ''reader'')))) 1 = [7]"
proof -
  have g: "get_blog_by_id ex_rows 1 = Inr (Some ex_pending)"
    by (simp add: get_blog_by_id_def ex_defs)
  have v: "\<not> can_view_blog ex_pending (Some ex_reader)"
    by (simp add: can_view_blog_def ex_defs)
  have o: "ws_open ex_lib ex_users ex_rows ex_world 7 1 (Some ''reader'') =
      (Joined ex_reader,
       ex_world\<lparr>rooms := (rooms ex_world)(1 \<mapsto> List.insert 7 (room (rooms ex_world) 1)),
                wire := ws_accept (wire ex_world) 7\<rparr>)"
    by (simp add: ws_open_def ex_reader_token g chat_connect_def)
  show ?thesis using g v unfolding o by (simp add: room_def ex_world_def)
qed

subsection \<open>Inbound chat frames\<close>
















subsection \<open>Status transitions\<close>

lemma fold_max_ge: "(m::int) \<le> fold max ids m"
  by (induction ids arbitrary: m) (auto intro: order_trans [OF max.cobounded2])

lemma fold_max_mem: "i \<in> set ids \<Longrightarrow> (i::int) \<le> fold max ids m"
proof (induction ids arbitrary: m)
  case Nil
  then show ?case by simp
next
  case (Cons a ids)
  show ?case
  proof (cases "i = a")
    case True
    have "a \<le> max a m" by simp
    also have "\<dots> \<le> fold max ids (max a m)" by (rule fold_max_ge)
    finally show ?thesis using True by simp
  next
    case False
    with Cons.prems have "i \<in> set ids" by simp
    then show ?thesis by (simp add: Cons.IH)
  qed
qed

lemma next_id_fresh: "next_id ids \<notin> set ids"
proof
  assume "next_id ids \<in> set ids"
  then have "next_id ids \<le> fold max ids 0" by (rule fold_max_mem)
  then show False by (simp add: next_id_def)
qed

lemma get_blog_by_id_SomeD:
  assumes "get_blog_by_id rows bid = Inr (Some blog)"
  shows "blog \<in> set rows \<and> b_id blog = bid \<and> deleted_at blog = None"
proof -
  let ?f = "filter (\<lambda>b. b_id b = bid \<and> deleted_at b = None) rows"
  from assms have "scalar_one_or_none ?f = Inr (Some blog)" by (simp add: get_blog_by_id_def)
  then have "?f = [blog]" by (cases ?f rule: scalar_one_or_none.cases) simp_all
  then have "blog \<in> set ?f" by simp
  then show ?thesis by simp
qed

lemma status_of_flush_blog:
  "status_of (flush_blog rows b') bid =
     map_option (\<lambda>s. if bid = b_id b' then status b' else s) (status_of rows bid)"
  by (simp add: status_of_def find_flush_blog option.map_comp comp_def if_distrib)

lemma status_of_append:
  "status_of rows bid = Some s \<Longrightarrow> status_of (rows @ [b]) bid = Some s"
  by (induction rows) (auto simp: status_of_def)

lemma status_of_new:
  "b_id b \<notin> set (map b_id rows) \<Longrightarrow> status_of (rows @ [b]) (b_id b) = Some (status b)"
  by (induction rows) (auto simp: status_of_def)

lemma status_of_fetched:
  assumes "primary_key rows" and "get_blog_by_id rows bid = Inr (Some blog)"
  shows "status_of rows bid = Some (status blog)"
  using get_blog_by_id_SomeD [OF assms(2)] status_of_member [OF assms(1), of blog] by simp

lemma status_of_flush_fetched:
  assumes "get_blog_by_id rows bid' = Inr (Some blog)" and "b_id b' = b_id blog"
    and "status_of rows bid = Some s"
  shows "status_of (flush_blog rows b') bid = Some (if bid = bid' then status b' else s)"
  using get_blog_by_id_SomeD [OF assms(1)] assms(2,3) by (simp add: status_of_flush_blog)

text \<open>What each endpoint does to the primary keys and to the status of a post.\<close>

lemma update_blog_endpoint_key:
  "primary_key rows \<Longrightarrow> primary_key (snd (update_blog_endpoint lib rows now bid payload u))"
  by (auto simp: update_blog_endpoint_def update_blog_def Let_def primary_key_flush_blog
      split: sum.splits option.splits)

lemma delete_blog_endpoint_key:
  "primary_key rows \<Longrightarrow> primary_key (snd (delete_blog_endpoint rows now bid u))"
  by (auto simp: delete_blog_endpoint_def soft_delete_blog_def primary_key_flush_blog
      split: sum.splits option.splits)

lemma approve_blog_endpoint_key:
  "primary_key rows \<Longrightarrow> primary_key (snd (approve_blog_endpoint rows now bid u))"
  by (auto simp: approve_blog_endpoint_def approve_blog_def Let_def primary_key_flush_blog
      split: sum.splits option.splits)

lemma reject_blog_endpoint_key:
  "primary_key rows \<Longrightarrow> primary_key (snd (reject_blog_endpoint rows now bid u))"
  by (auto simp: reject_blog_endpoint_def reject_blog_def Let_def primary_key_flush_blog
      split: sum.splits option.splits)

lemma create_blog_endpoint_key:
  "primary_key rows \<Longrightarrow>
   primary_key (fst (snd (create_blog_endpoint lib rows clients now payload u)))"
  using next_id_fresh [of "map b_id rows"]
  by (auto simp: create_blog_endpoint_def create_blog_def Let_def primary_key_def
      split: sum.splits)

lemma update_blog_endpoint_status:
  assumes "primary_key rows" and "status_of rows i = Some s"
  shows "status_of (snd (update_blog_endpoint lib rows now bid payload u)) i = Some s"
  using assms
  by (auto simp: update_blog_endpoint_def update_blog_def Let_def status_of_flush_fetched
      split: sum.splits option.splits dest: status_of_fetched)

lemma delete_blog_endpoint_status:
  assumes "primary_key rows" and "status_of rows i = Some s"
  shows "status_of (snd (delete_blog_endpoint rows now bid u)) i = Some s"
  using assms
  by (auto simp: delete_blog_endpoint_def soft_delete_blog_def status_of_flush_fetched
      split: sum.splits option.splits dest: status_of_fetched)

lemma create_blog_endpoint_status:
  assumes "status_of rows i = Some s"
  shows "status_of (fst (snd (create_blog_endpoint lib rows clients now payload u))) i = Some s"
  using assms
  by (auto simp: create_blog_endpoint_def create_blog_def Let_def status_of_append
      split: sum.splits)

lemma require_approver_cases:
  "require_approver u = Inr u \<and> is_active u \<and> (role u = ADMIN \<or> role u = L1_APPROVER)
   \<or> (\<exists>e. require_approver u = Inl e) \<and> \<not> (is_active u \<and> (role u = ADMIN \<or> role u = L1_APPROVER))"
  by (auto simp: require_approver_def get_current_active_user_def)

lemma approve_blog_endpoint_moves:
  assumes pk: "primary_key rows" and mem: "b \<in> set rows"
  shows "status_of (snd (approve_blog_endpoint rows now bid u)) (b_id b) =
           Some (if bid = b_id b \<and> deleted_at b = None \<and> is_active u
                    \<and> (role u = ADMIN \<or> role u = L1_APPROVER)
                 then APPROVED else status b)"
proof -
  have s: "status_of rows (b_id b) = Some (status b)" using pk mem by (rule status_of_member)
  show ?thesis
  proof (cases "bid = b_id b")
    case True
    have g: "get_blog_by_id rows (b_id b) = Inr (if deleted_at b = None then Some b else None)"
      using pk mem by (rule get_blog_by_id_member)
    from require_approver_cases [of u] show ?thesis
      by (auto simp: approve_blog_endpoint_def g approve_blog_def Let_def status_of_flush_blog
          s True)
  next
    case False
    with s show ?thesis
      by (auto simp: approve_blog_endpoint_def approve_blog_def Let_def status_of_flush_fetched
          split: sum.splits option.splits)
  qed
qed

lemma reject_blog_endpoint_moves:
  assumes pk: "primary_key rows" and mem: "b \<in> set rows"
  shows "status_of (snd (reject_blog_endpoint rows now bid u)) (b_id b) =
           Some (if bid = b_id b \<and> deleted_at b = None \<and> is_active u
                    \<and> (role u = ADMIN \<or> role u = L1_APPROVER)
                 then REJECTED else status b)"
proof -
  have s: "status_of rows (b_id b) = Some (status b)" using pk mem by (rule status_of_member)
  show ?thesis
  proof (cases "bid = b_id b")
    case True
    have g: "get_blog_by_id rows (b_id b) = Inr (if deleted_at b = None then Some b else None)"
      using pk mem by (rule get_blog_by_id_member)
    from require_approver_cases [of u] show ?thesis
      by (auto simp: reject_blog_endpoint_def g reject_blog_def Let_def status_of_flush_blog
          s True)
  next
    case False
    with s show ?thesis
      by (auto simp: reject_blog_endpoint_def reject_blog_def Let_def status_of_flush_fetched
          split: sum.splits option.splits)
  qed
qed

lemma handle_Submit_rows:
  "blog_rows (handle lib a (now, Submit u payload)) =
     fst (snd (create_blog_endpoint lib (blog_rows a) (sse_clients a) now payload u))"
  by (simp split: prod.splits)

lemma handle_primary_key:
  "primary_key (blog_rows a) \<Longrightarrow> primary_key (blog_rows (handle lib a (now, req)))"
  by (cases req)
    (simp_all del: handle.simps(1) add: handle_Submit_rows create_blog_endpoint_key
      update_blog_endpoint_key delete_blog_endpoint_key approve_blog_endpoint_key
      reject_blog_endpoint_key)

lemma handle_status:
  assumes pk: "primary_key (blog_rows a)" and mem: "b \<in> set (blog_rows a)"
  shows "status_of (blog_rows (handle lib a (now, req))) (b_id b)
           \<in> (case req of Approve bid u \<Rightarrow> {Some (status b), Some APPROVED}
                         | Reject bid u \<Rightarrow> {Some (status b), Some REJECTED}
                         | _ \<Rightarrow> {Some (status b)})"
proof -
  have s: "status_of (blog_rows a) (b_id b) = Some (status b)"
    using pk mem by (rule status_of_member)
  show ?thesis
  proof (cases req)
    case (Submit u payload)
    then show ?thesis using s
      by (simp del: handle.simps(1) add: handle_Submit_rows create_blog_endpoint_status)
  next
    case (Edit bid u payload)
    then show ?thesis using pk s by (simp add: update_blog_endpoint_status)
  next
    case (Delete bid u)
    then show ?thesis using pk s by (simp add: delete_blog_endpoint_status)
  next
    case (Approve bid u)
    then show ?thesis using approve_blog_endpoint_moves [OF pk mem, of now bid u] by simp
  next
    case (Reject bid u)
    then show ?thesis using reject_blog_endpoint_moves [OF pk mem, of now bid u] by simp
  qed
qed

lemma status_of_SomeD:
  "status_of rows i = Some s \<Longrightarrow> \<exists>b\<in>set rows. b_id b = i \<and> status b = s"
  by (induction rows) (auto simp: status_of_def split: if_splits)

lemma run_left_pending:
  assumes "primary_key (blog_rows a)" and "status_of (blog_rows a) i = Some s" and "s \<noteq> PENDING"
  shows "\<exists>s'. status_of (blog_rows (run lib a reqs)) i = Some s' \<and> s' \<noteq> PENDING"
  using assms
proof (induction reqs arbitrary: a s)
  case Nil
  then show ?case by (simp add: run_def)
next
  case (Cons r reqs)
  obtain now req where r: "r = (now, req)" by (cases r)
  let ?a = "handle lib a (now, req)"
  have pk: "primary_key (blog_rows ?a)" using Cons.prems(1) by (rule handle_primary_key)
  from status_of_SomeD [OF Cons.prems(2)]
  obtain b where b: "b \<in> set (blog_rows a)" "b_id b = i" "status b = s" by blast
  from handle_status [OF Cons.prems(1) b(1), of lib now req] Cons.prems(3) b(2,3)
  obtain s1 where s1: "status_of (blog_rows ?a) i = Some s1" "s1 \<noteq> PENDING"
    by (cases req) auto
  from Cons.IH [OF pk s1] show ?case by (simp add: run_def r)
qed

lemma submit_pending:
  assumes "is_active u" and "BlogCreate_valid lib payload"
  shows "\<exists>p. fst (create_blog_endpoint lib (blog_rows a) (sse_clients a) now payload u) = Inr p
           \<and> status p = PENDING
           \<and> status_of (blog_rows (handle lib a (now, Submit u payload))) (b_id p) = Some PENDING"
proof -
  let ?b = "\<lparr>b_id = next_id (map b_id (blog_rows a)), title = new_title payload,
             content = new_content payload, images = new_images payload, status = PENDING,
             author_id = u_id u, created_at = now, updated_at = now, deleted_at = None\<rparr>"
  have e: "create_blog_endpoint lib (blog_rows a) (sse_clients a) now payload u =
      (Inr ?b, blog_rows a @ [?b], notify_new_pending_blog lib (sse_clients a) ?b)"
    using assms
    by (simp add: create_blog_endpoint_def get_current_active_user_def create_blog_def Let_def)
  have "b_id ?b \<notin> set (map b_id (blog_rows a))" using next_id_fresh [of "map b_id (blog_rows a)"]
    by simp
  then have "status_of (blog_rows a @ [?b]) (b_id ?b) = Some (status ?b)"
    by (rule status_of_new)
  then show ?thesis
    by (intro exI [of _ ?b]) (simp del: handle.simps(1) add: handle_Submit_rows e)
qed

text \<open>
  Claim C1, as amended. The status of every post is PENDING, APPROVED or REJECTED
  (the type of the column has no other value), and a submitted post starts as
  PENDING. Submit, edit and delete
  leave the status of every post as it is. Approve by an active ADMIN or L1_APPROVER
  sets the status of a post that is not soft-deleted to APPROVED, from PENDING and
  from REJECTED alike, and changes no other post; reject sets it to REJECTED, from
  PENDING and from APPROVED alike; for any other actor or a soft-deleted post they
  change nothing. So no sequence of operations moves a post back to PENDING: a post
  whose status is APPROVED or REJECTED stays APPROVED or REJECTED.
\<close>

theorem status_lifecycle:
  assumes "primary_key (blog_rows a)"
  shows "(is_active u \<and> BlogCreate_valid lib payload \<longrightarrow>
            (\<exists>p. fst (create_blog_endpoint lib (blog_rows a) (sse_clients a) now payload u) = Inr p
               \<and> status p = PENDING
               \<and> status_of (blog_rows (handle lib a (now, Submit u payload))) (b_id p)
                   = Some PENDING))
       \<and> (\<forall>b\<in>set (blog_rows a).
              status_of (blog_rows (handle lib a (now, Submit u payload))) (b_id b)
                = Some (status b)
            \<and> status_of (blog_rows (handle lib a (now, Edit bid u patch))) (b_id b)
                = Some (status b)
            \<and> status_of (blog_rows (handle lib a (now, Delete bid u))) (b_id b)
                = Some (status b)
            \<and> status_of (blog_rows (handle lib a (now, Approve bid u))) (b_id b)
                = Some (if bid = b_id b \<and> deleted_at b = None \<and> is_active u
                           \<and> (role u = ADMIN \<or> role u = L1_APPROVER)
                        then APPROVED else status b)
            \<and> status_of (blog_rows (handle lib a (now, Reject bid u))) (b_id b)
                = Some (if bid = b_id b \<and> deleted_at b = None \<and> is_active u
                           \<and> (role u = ADMIN \<or> role u = L1_APPROVER)
                        then REJECTED else status b)
            \<and> (status b \<noteq> PENDING \<longrightarrow>
                 (\<exists>s'. status_of (blog_rows (run lib a reqs)) (b_id b) = Some s'
                       \<and> s' \<noteq> PENDING)))
       \<and> (\<forall>p\<in>set (blog_rows (run lib a reqs)).
              status p = PENDING \<or> status p = APPROVED \<or> status p = REJECTED)"
proof -
  have dom: "status p = PENDING \<or> status p = APPROVED \<or> status p = REJECTED" for p :: Blog
    by (cases "status p") simp_all
  have step: "status_of (blog_rows (handle lib a (now, Submit u payload))) (b_id b)
                = Some (status b)
            \<and> status_of (blog_rows (handle lib a (now, Edit bid u patch))) (b_id b)
                = Some (status b)
            \<and> status_of (blog_rows (handle lib a (now, Delete bid u))) (b_id b)
                = Some (status b)
            \<and> status_of (blog_rows (handle lib a (now, Approve bid u))) (b_id b)
                = Some (if bid = b_id b \<and> deleted_at b = None \<and> is_active u
                           \<and> (role u = ADMIN \<or> role u = L1_APPROVER)
                        then APPROVED else status b)
            \<and> status_of (blog_rows (handle lib a (now, Reject bid u))) (b_id b)
                = Some (if bid = b_id b \<and> deleted_at b = None \<and> is_active u
                           \<and> (role u = ADMIN \<or> role u = L1_APPROVER)
                        then REJECTED else status b)"
    if mem: "b \<in> set (blog_rows a)" for b
    using handle_status [OF assms mem, of lib now "Submit u payload"]
      handle_status [OF assms mem, of lib now "Edit bid u patch"]
      handle_status [OF assms mem, of lib now "Delete bid u"]
      approve_blog_endpoint_moves [OF assms mem, of now bid u]
      reject_blog_endpoint_moves [OF assms mem, of now bid u]
    by (simp del: handle.simps(1,2,3))
  have seq: "\<exists>s'. status_of (blog_rows (run lib a reqs)) (b_id b) = Some s' \<and> s' \<noteq> PENDING"
    if mem: "b \<in> set (blog_rows a)" and np: "status b \<noteq> PENDING" for b
    using assms status_of_member [OF assms mem] np by (rule run_left_pending)
  from submit_pending [of u lib payload a now] step seq dom show ?thesis by blast
qed

lemma ex_payload_valid: "BlogCreate_valid ex_lib ex_payload"
  by (simp add: BlogCreate_valid_def ex_lib_def ex_payload_def)

theorem status_lifecycle_witness:
  "primary_key (blog_rows ex_app) \<and> is_active ex_author \<and> BlogCreate_valid ex_lib ex_payload
   \<and> ex_approved \<in> set (blog_rows ex_app) \<and> ex_pending \<in> set (blog_rows ex_app)
   \<and> status_of (blog_rows (handle ex_lib ex_app (40, Delete 2 ex_author))) 2 = Some APPROVED
   \<and> status_of (blog_rows (handle ex_lib ex_app (40, Approve 1 ex_author))) 1 = Some PENDING
   \<and> status_of (blog_rows (handle ex_lib ex_app (40, Approve 1 ex_approver))) 1 = Some APPROVED
   \<and> status_of (blog_rows (handle ex_lib ex_app (40, Reject 2 ex_admin))) 2 = Some REJECTED
   \<and> (\<exists>p. fst (create_blog_endpoint ex_lib (blog_rows ex_app) (sse_clients ex_app) 40
                 ex_payload ex_author) = Inr p \<and> status p = PENDING)
   \<and> (\<exists>s'. status_of (blog_rows (run ex_lib ex_app
                [(40, Delete 2 ex_author), (50, Reject 2 ex_admin)])) 2 = Some s' \<and> s' \<noteq> PENDING)"
proof -
  have pk: "primary_key (blog_rows ex_app)" by (simp add: ex_app_def primary_key_def ex_defs)
  have act: "is_active ex_author" by (simp add: ex_author_def)
  have m2: "ex_approved \<in> set (blog_rows ex_app)" and m1: "ex_pending \<in> set (blog_rows ex_app)"
    by (simp_all add: ex_app_def ex_rows_def)
  have i2: "b_id ex_approved = 2" and i1: "b_id ex_pending = 1" by (simp_all add: ex_defs)
  have st: "status ex_approved = APPROVED" "status ex_pending = PENDING"
    "deleted_at ex_approved = None" "deleted_at ex_pending = None"
    by (simp_all add: ex_defs)
  have who: "role ex_author = USER" "is_active ex_approver" "role ex_approver = L1_APPROVER"
    "is_active ex_admin" "role ex_admin = ADMIN"
    by (simp_all add: ex_defs)
  let ?patch = "\<lparr>upd_title = None, upd_content = None, upd_images = None\<rparr>"
  let ?reqs = "[(40, Delete 2 ex_author), (50, Reject 2 ex_admin)]"
  note all = status_lifecycle [OF pk, of _ ex_lib ex_payload 40 _ ?patch ?reqs]
  note sub = conjunct1 [OF all [of ex_author 2]]
  note t2 = conjunct1 [OF conjunct2 [OF all [of ex_author 2]],
      THEN bspec, OF m2, unfolded i2 st]
  note t1 = conjunct1 [OF conjunct2 [OF all [of ex_author 1]],
      THEN bspec, OF m1, unfolded i1 st]
  note t1' = conjunct1 [OF conjunct2 [OF all [of ex_approver 1]],
      THEN bspec, OF m1, unfolded i1 st]
  note t2' = conjunct1 [OF conjunct2 [OF all [of ex_admin 2]],
      THEN bspec, OF m2, unfolded i2 st]
  from sub act ex_payload_valid
  have c: "\<exists>p. fst (create_blog_endpoint ex_lib (blog_rows ex_app) (sse_clients ex_app) 40
                 ex_payload ex_author) = Inr p \<and> status p = PENDING"
    by blast
  from t2
  have a: "status_of (blog_rows (handle ex_lib ex_app (40, Delete 2 ex_author))) 2 = Some APPROVED"
    and r: "\<exists>s'. status_of (blog_rows (run ex_lib ex_app ?reqs)) 2 = Some s' \<and> s' \<noteq> PENDING"
    by simp_all
  from t1
  have b: "status_of (blog_rows (handle ex_lib ex_app (40, Approve 1 ex_author))) 1 = Some PENDING"
    by (simp add: who)
  from t1'
  have d: "status_of (blog_rows (handle ex_lib ex_app (40, Approve 1 ex_approver))) 1 = Some APPROVED"
    by (simp add: who)
  from t2'
  have e: "status_of (blog_rows (handle ex_lib ex_app (40, Reject 2 ex_admin))) 2 = Some REJECTED"
    by (simp add: who)
  from pk act ex_payload_valid m1 m2 a b c d e r show ?thesis by blast
qed

theorem status_leaves_approved_counterexample:
  "status_of (blog_rows ex_app) 2 = Some APPROVED
   \<and> status_of (blog_rows (run ex_lib ex_app [(50, Reject 2 ex_admin)])) 2 = Some REJECTED
   \<and> status_of (blog_rows (run ex_lib ex_app [(50, Reject 2 ex_admin), (60, Approve 2 ex_approver)])) 2
       = Some APPROVED"
proof -
  let ?r = "ex_approved\<lparr>status := REJECTED, updated_at := 50\<rparr>"
  let ?a = "ex_approved\<lparr>status := APPROVED, updated_at := 60\<rparr>"
  have ok: "require_approver ex_admin = Inr ex_admin" "require_approver ex_approver = Inr ex_approver"
    by (simp_all add: require_approver_def get_current_active_user_def ex_defs)
  have g1: "get_blog_by_id ex_rows 2 = Inr (Some ex_approved)"
    by (simp add: get_blog_by_id_def ex_defs)
  have r1: "reject_blog_endpoint ex_rows 50 2 ex_admin = (Inr ?r, [ex_pending, ?r, ex_newer])"
    by (simp add: reject_blog_endpoint_def ok g1 reject_blog_def Let_def flush_blog_def)
      (simp add: ex_defs)
  have g2: "get_blog_by_id [ex_pending, ?r, ex_newer] 2 = Inr (Some ?r)"
    by (simp add: get_blog_by_id_def ex_defs)
  have r2: "approve_blog_endpoint [ex_pending, ?r, ex_newer] 60 2 ex_approver
      = (Inr ?a, [ex_pending, ?a, ex_newer])"
    by (simp add: approve_blog_endpoint_def ok g2 approve_blog_def Let_def flush_blog_def)
      (simp add: ex_defs)
  show ?thesis
    by (simp add: run_def ex_app_def r1 r2) (simp add: status_of_def ex_defs)
qed

end
